theory Spec2Isabelle
  imports Main
begin

section \<open>JavaScript values that the session handles\<close>

text \<open>
  An error object is modelled by the two fields that \<open>Error.prototype.toString\<close> reads.
  The session only ever looks at an error through \<open>err.toString()\<close> (to recognise
  \<open>ER_UNKNOWN_SYSTEM_VARIABLE\<close>) or passes it on unchanged.
\<close>

datatype js_error = JsError (err_name: string) (err_message: string)

definition err_toString :: "js_error \<Rightarrow> string" where
  "err_toString e =
     (if err_name e = [] then err_message e
      else if err_message e = [] then err_name e
      else err_name e @ '': '' @ err_message e)"

text \<open>\<open>str.match(/literal/)\<close> for a pattern without metacharacters: is the literal a
  contiguous part of the string?\<close>

fun starts_with :: "string \<Rightarrow> string \<Rightarrow> bool" where
  "starts_with [] s = True"
| "starts_with (p # ps) [] = False"
| "starts_with (p # ps) (c # cs) = (p = c \<and> starts_with ps cs)"

fun matches_literal :: "string \<Rightarrow> string \<Rightarrow> bool" where
  "matches_literal p [] = starts_with p []"
| "matches_literal p (c # cs) = (starts_with p (c # cs) \<or> matches_literal p cs)"

section \<open>Filter policy\<close>

text \<open>
  \<open>this.filters = { includeEvents, excludeEvents, includeSchema, excludeSchema }\<close>.
  A field that the caller did not give is \<open>undefined\<close> (\<open>None\<close>). The event filters are
  arrays of event names. The schema filters are plain objects from schema name to a rule,
  a rule being \<open>true\<close>, an array of table names, or a function of the table name.
  The map holds the object's own properties. A function is given by the truthiness of
  its result; its argument is \<open>Some\<close> table name, or \<open>None\<close> when it is called without
  an argument (which only \<open>toLocaleString\<close> below does).
\<close>

datatype schema_rule =
  AllTables | TableList "string list" | Predicate "string option \<Rightarrow> bool"

record filters =
  includeEvents :: "string list option"
  excludeEvents :: "string list option"
  includeSchema :: "(string \<rightharpoonup> schema_rule) option"
  excludeSchema :: "(string \<rightharpoonup> schema_rule) option"

text \<open>
  \<^verbatim>\<open>
  ZongJi.prototype._skipEvent = function (name) {
    const includes = this.filters.includeEvents;
    const excludes = this.filters.excludeEvents;
    const included = !includes || includes.includes(name);
    const excluded = excludes && excludes.includes(name);
    return excluded || !included;
  };
  \<close>
  An array is truthy even when empty, so \<open>!includes\<close> holds exactly when the field is
  absent. When \<open>excludes\<close> is absent \<open>excluded\<close> is \<open>undefined\<close> and the result is
  \<open>!included\<close>, a boolean.
\<close>

definition skipEvent :: "filters \<Rightarrow> string \<Rightarrow> bool" where
  "skipEvent f name =
     (let includes = includeEvents f;
          excludes = excludeEvents f;
          included = (case includes of None \<Rightarrow> True | Some xs \<Rightarrow> name \<in> set xs);
          excluded = (case excludes of None \<Rightarrow> False | Some xs \<Rightarrow> name \<in> set xs)
      in excluded \<or> \<not> included)"

subsection \<open>Property lookup on a plain object\<close>

text \<open>
  \<open>_skipSchema\<close> tests \<open>db in includes\<close> and reads \<open>includes[db]\<close>. On a plain
  object both follow the prototype chain: a name that is not an own property is still
  found when \<open>Object.prototype\<close> has it. These are the members of \<open>Object.prototype\<close>.
\<close>

datatype proto_member =
    Constructor | DefineGetter | DefineSetter | HasOwnProperty | LookupGetter
  | LookupSetter | IsPrototypeOf | PropertyIsEnumerable | ToString | ValueOf
  | ProtoAccessor | ToLocaleString

definition object_prototype :: "(string \<times> proto_member) list" where
  "object_prototype =
     [(''constructor'', Constructor),
      (''__defineGetter__'', DefineGetter),
      (''__defineSetter__'', DefineSetter),
      (''hasOwnProperty'', HasOwnProperty),
      (''__lookupGetter__'', LookupGetter),
      (''__lookupSetter__'', LookupSetter),
      (''isPrototypeOf'', IsPrototypeOf),
      (''propertyIsEnumerable'', PropertyIsEnumerable),
      (''toString'', ToString),
      (''valueOf'', ValueOf),
      (''__proto__'', ProtoAccessor),
      (''toLocaleString'', ToLocaleString)]"

datatype property = OwnRule schema_rule | Inherited proto_member

definition get_property :: "(string \<rightharpoonup> schema_rule) \<Rightarrow> string \<Rightarrow> property option" where
  "get_property obj key =
     (case obj key of
        Some r \<Rightarrow> Some (OwnRule r)
      | None \<Rightarrow> map_option Inherited (map_of object_prototype key))"

text \<open>
  The truthiness of \<open>typeof m === 'function' && m.call(obj, table)\<close> for an inherited
  member \<open>m\<close> and a string \<open>table\<close>, or the \<open>TypeError\<close> it throws:
  \<^item> \<open>constructor\<close> is \<open>Object\<close>, and \<open>Object(table)\<close> is a String object;
    \<open>toString\<close> gives \<open>"[object Object]"\<close>; \<open>valueOf\<close> gives the object itself: all
    truthy;
  \<^item> \<open>toLocaleString\<close> calls \<open>this.toString()\<close>: the inherited one, unless the object
    has an own property of that name, which it calls without an argument if it is a
    function and cannot call otherwise;
  \<^item> \<open>hasOwnProperty\<close> and \<open>propertyIsEnumerable\<close> tell whether \<open>table\<close> names an
    own property;
  \<^item> \<open>isPrototypeOf\<close> of a string is \<open>false\<close>;
  \<^item> \<open>__lookupGetter__\<close> and \<open>__lookupSetter__\<close> stop at the first object that has
    the property and give \<open>undefined\<close> unless it is an accessor; the only accessor is
    \<open>__proto__\<close> of \<open>Object.prototype\<close>;
  \<^item> \<open>__defineGetter__\<close> and \<open>__defineSetter__\<close> throw, their second argument
    not being callable;
  \<^item> \<open>__proto__\<close> reads as \<open>Object.prototype\<close>, which is no function.
\<close>

datatype js_throw = TypeError

fun call_inherited :: "proto_member \<Rightarrow> (string \<rightharpoonup> schema_rule) \<Rightarrow> string \<Rightarrow> js_throw + bool" where
  "call_inherited Constructor obj table = Inr True"
| "call_inherited ToString obj table = Inr True"
| "call_inherited ToLocaleString obj table =
     (case obj ''toString'' of
        None \<Rightarrow> Inr True
      | Some (Predicate p) \<Rightarrow> Inr (p None)
      | Some r \<Rightarrow> Inl TypeError)"
| "call_inherited ValueOf obj table = Inr True"
| "call_inherited HasOwnProperty obj table = Inr (obj table \<noteq> None)"
| "call_inherited PropertyIsEnumerable obj table = Inr (obj table \<noteq> None)"
| "call_inherited IsPrototypeOf obj table = Inr False"
| "call_inherited LookupGetter obj table = Inr (obj table = None \<and> table = ''__proto__'')"
| "call_inherited LookupSetter obj table = Inr (obj table = None \<and> table = ''__proto__'')"
| "call_inherited DefineGetter obj table = Inl TypeError"
| "call_inherited DefineSetter obj table = Inl TypeError"
| "call_inherited ProtoAccessor obj table = Inr False"

text \<open>
  \<open>obj[db] === true || (Array.isArray(obj[db]) && obj[db].includes(table)) ||
  (typeof obj[db] === 'function' && obj[db](table))\<close>, for a property that exists.
\<close>

fun rule_matches :: "(string \<rightharpoonup> schema_rule) \<Rightarrow> property \<Rightarrow> string \<Rightarrow> js_throw + bool" where
  "rule_matches obj (OwnRule AllTables) table = Inr True"
| "rule_matches obj (OwnRule (TableList ts)) table = Inr (table \<in> set ts)"
| "rule_matches obj (OwnRule (Predicate p)) table = Inr (p (Some table))"
| "rule_matches obj (Inherited m) table = call_inherited m obj table"

text \<open>\<open>db in obj && (...)\<close>\<close>

definition schema_test :: "(string \<rightharpoonup> schema_rule) \<Rightarrow> string \<Rightarrow> string \<Rightarrow> js_throw + bool" where
  "schema_test obj db table =
     (case get_property obj db of
        None \<Rightarrow> Inr False
      | Some p \<Rightarrow> rule_matches obj p table)"

text \<open>
  \<^verbatim>\<open>
  ZongJi.prototype._skipSchema = function (db, table) {
    const includes = this.filters.includeSchema;
    const excludes = this.filters.excludeSchema || {};
    const included =
      !includes ||
      (db in includes &&
        (includes[db] === true ||
          (Array.isArray(includes[db]) && includes[db].includes(table)) ||
          (typeof includes[db] === 'function' && includes[db](table))));
    const excluded =
      db in excludes &&
      (excludes[db] === true ||
        (Array.isArray(excludes[db]) && excludes[db].includes(table)) ||
        (typeof excludes[db] === 'function' && excludes[db](table)));
    return excluded || !included;
  };
  \<close>
  The result is the truthiness of the value returned, or the exception thrown.
\<close>

definition skipSchema :: "filters \<Rightarrow> string \<Rightarrow> string \<Rightarrow> js_throw + bool" where
  "skipSchema f db table =
     (let includes = includeSchema f;
          excludes = (case excludeSchema f of None \<Rightarrow> Map.empty | Some m \<Rightarrow> m)
      in case (case includes of None \<Rightarrow> Inr True | Some inc \<Rightarrow> schema_test inc db table) of
           Inl e \<Rightarrow> Inl e
         | Inr included \<Rightarrow>
             (case schema_test excludes db table of
                Inl e \<Rightarrow> Inl e
              | Inr excluded \<Rightarrow> Inr (excluded \<or> \<not> included)))"

text \<open>The three-way rule semantics that the specification gives to a rule.\<close>

fun rule_covers :: "schema_rule \<Rightarrow> string \<Rightarrow> bool" where
  "rule_covers AllTables table = True"
| "rule_covers (TableList ts) table = (table \<in> set ts)"
| "rule_covers (Predicate p) table = p (Some table)"

text \<open>The filters of a session on which no filter option was given.\<close>

definition no_filters :: filters where
  "no_filters = \<lparr>includeEvents = None, excludeEvents = None,
                  includeSchema = None, excludeSchema = None\<rparr>"

section \<open>Session state\<close>

text \<open>\<open>this.options = { serverId, filename, position, startAtEnd }\<close>; a field that was
  not given is \<open>undefined\<close>.\<close>

record session_options =
  serverId :: "nat option"
  filename :: "string option"
  position :: "nat option"
  startAtEnd :: "bool option"

text \<open>The rows that the three kinds of query give back, and a table-map event.\<close>

record checksum_row =
  checksum :: string

record binlog_row =
  Log_name :: string
  File_size :: nat

record column_row =
  COLUMN_NAME :: string
  COLLATION_NAME :: "string option"
  CHARACTER_SET_NAME :: "string option"
  COLUMN_COMMENT :: string
  COLUMN_TYPE :: string

record table_map_event =
  tableId :: nat
  schemaName :: string
  tableName :: string

text \<open>An entry of \<open>this.tableMap\<close>; \<open>entry_tableName\<close> is its field \<open>tableName\<close>.\<close>

record table_info =
  columnSchemas :: "column_row list"
  parentSchema :: string
  entry_tableName :: string

text \<open>
  What the session does to the outside, in the order in which it does it: the
  notifications it emits, the queries it sends (\<open>conn.query(sql, callback)\<close>; the last
  component is the list of values bound to placeholders), the connections it destroys,
  the callbacks it calls, the decoder it starts (with the options then in force), and a
  promise rejection that nothing handles.
\<close>

datatype connection = CtrlConnection | Connection

datatype notification = ReadyN | StoppedN | ErrorN js_error

datatype effect =
    Emit notification
  | Query connection string "string list"
  | Destroy connection
  | Next "js_error option" "bool option"
  | TableInfoNext table_map_event
  | InitBinlogClass
  | BinlogStart session_options
  | UnhandledRejection js_error

datatype promise = Pending | Resolved | Rejected js_error

text \<open>
  Where the promise chain of \<open>_isChecksumEnabled\<close> stands: which query is in flight and
  which handler its answer reaches. \<open>StreamInFlightThen\<close> is the query that the first
  \<open>then\<close> handler returned, \<open>StreamInFlightCatch\<close> the one that the \<open>catch\<close>
  handler returned. \<open>Abandoned\<close>: the chain ended in a rejection with no handler.
\<close>

datatype checksum_stage =
  Idle | SelectInFlight | StreamInFlightThen | StreamInFlightCatch | Finished | Abandoned

text \<open>
  The fields of the object, then the variables that the closures of one \<open>start\<close> call
  and of \<open>stop\<close> hold while their queries are in flight:
  \<open>start_options\<close> is the argument \<open>options\<close> of \<open>start\<close>, \<open>checksumEnabled\<close> the
  local variable of \<open>_isChecksumEnabled\<close>, \<open>testChecksum\<close> and \<open>findBinlogEnd\<close> the
  two promises given to \<open>Promise.all\<close> (the second only when \<open>startAtEnd\<close> is truthy),
  \<open>settled\<close> whether the \<open>then\<close> or the \<open>catch\<close> handler of \<open>Promise.all\<close> has run,
  \<open>started\<close> whether \<open>start\<close> has been called.
  \<open>threadId\<close> is \<open>this.connection.threadId\<close> as text.
\<close>

record zongji =
  options :: session_options
  filters :: filters
  tableMap :: "nat \<rightharpoonup> table_info"
  ready :: bool
  stopped :: bool
  useChecksum :: bool
  ctrlConnectionOwner :: bool
  threadId :: string
  started :: bool
  start_options :: session_options
  checksumEnabled :: bool
  checksum_stage :: checksum_stage
  testChecksum :: promise
  findBinlogEnd :: "promise option"
  settled :: bool
  kill_pending :: bool
  tableInfo_pending :: "table_map_event list"
  effects :: "effect list"

definition effect :: "effect \<Rightarrow> zongji \<Rightarrow> zongji" where
  "effect x s = s\<lparr>effects := effects s @ [x]\<rparr>"

text \<open>\<open>this.emit(name, ...)\<close> is recorded; the listeners are the consumer's.\<close>

definition emit :: "notification \<Rightarrow> zongji \<Rightarrow> zongji" where
  "emit n s = effect (Emit n) s"

definition query :: "connection \<Rightarrow> string \<Rightarrow> zongji \<Rightarrow> zongji" where
  "query conn sql s = effect (Query conn sql []) s"

fun notifications :: "effect list \<Rightarrow> notification list" where
  "notifications [] = []"
| "notifications (Emit n # xs) = n # notifications xs"
| "notifications (x # xs) = notifications xs"

abbreviation emitted :: "zongji \<Rightarrow> notification list" where
  "emitted s \<equiv> notifications (effects s)"

fun is_error :: "notification \<Rightarrow> bool" where
  "is_error (ErrorN e) = True"
| "is_error n = False"

text \<open>
  \<^verbatim>\<open>
  function ZongJi(dsn) {
    this._options({}); this._filters({});
    this.ctrlCallbacks = []; this.tableMap = {};
    this.ready = false; this.stopped = false; this.useChecksum = false;
    this._establishConnection(dsn);     // this.ctrlConnectionOwner = true
  }
  \<close>
\<close>

definition new_ZongJi :: "string \<Rightarrow> zongji" where
  "new_ZongJi tid =
     \<lparr>options = \<lparr>serverId = None, filename = None, position = None, startAtEnd = None\<rparr>,
      filters = no_filters,
      tableMap = Map.empty,
      ready = False,
      stopped = False,
      useChecksum = False,
      ctrlConnectionOwner = True,
      threadId = tid,
      started = False,
      start_options = \<lparr>serverId = None, filename = None, position = None, startAtEnd = None\<rparr>,
      checksumEnabled = True,
      checksum_stage = Idle,
      testChecksum = Pending,
      findBinlogEnd = None,
      settled = False,
      kill_pending = False,
      tableInfo_pending = [],
      effects = []\<rparr>"

section \<open>Table metadata\<close>

text \<open>
  \<open>util.format(template, a, b)\<close> with string arguments: each \<open>%s\<close> is replaced by the
  next argument while one is left, \<open>%%\<close> becomes \<open>%\<close>, the inserted text is not
  scanned again, and arguments that are left over are added at the end, a space before
  each. Without arguments the template is returned as it is. The template of this file
  has no other directive, and none is modelled.
\<close>

fun format_scan :: "string \<Rightarrow> string list \<Rightarrow> string" where
  "format_scan [] args = concat (map (\<lambda>a. CHR '' '' # a) args)"
| "format_scan [c] args = c # format_scan [] args"
| "format_scan (c # d # cs) args =
     (if c = CHR ''%'' \<and> d = CHR ''s'' then
        (case args of
           [] \<Rightarrow> c # d # format_scan cs args
         | a # as \<Rightarrow> a @ format_scan cs as)
      else if c = CHR ''%'' \<and> d = CHR ''%'' then CHR ''%'' # format_scan cs args
      else if c = CHR ''%'' then c # d # format_scan cs args
      else c # format_scan (d # cs) args)"

definition util_format :: "string \<Rightarrow> string list \<Rightarrow> string" where
  "util_format template args = (if args = [] then template else format_scan template args)"

text \<open>
  \<^verbatim>\<open>
  const TableInfoQueryTemplate = `SELECT 
    COLUMN_NAME, COLLATION_NAME, CHARACTER_SET_NAME, 
    COLUMN_COMMENT, COLUMN_TYPE 
    FROM INFORMATION_SCHEMA.COLUMNS WHERE TABLE_SCHEMA='%s' AND TABLE_NAME='%s' 
    ORDER BY ORDINAL_POSITION`;
  \<close>
  The three parts of the template around its two placeholders:
\<close>

definition template_head :: string where
  "template_head =
     ''SELECT \<newline>  COLUMN_NAME, COLLATION_NAME, CHARACTER_SET_NAME, \<newline>'' @
     ''  COLUMN_COMMENT, COLUMN_TYPE \<newline>'' @
     ''  FROM INFORMATION_SCHEMA.COLUMNS WHERE TABLE_SCHEMA='' @ [CHR 0x27]"

definition template_middle :: string where
  "template_middle = [CHR 0x27] @ '' AND TABLE_NAME='' @ [CHR 0x27]"

definition template_tail :: string where
  "template_tail = [CHR 0x27] @ '' \<newline>  ORDER BY ORDINAL_POSITION''"

definition TableInfoQueryTemplate :: string where
  "TableInfoQueryTemplate =
     template_head @ ''%s'' @ template_middle @ ''%s'' @ template_tail"

text \<open>
  \<^verbatim>\<open>
  ZongJi.prototype._fetchTableInfo = function (tableMapEvent, next) {
    const sql = util.format(TableInfoQueryTemplate, tableMapEvent.schemaName, tableMapEvent.tableName);
    this.ctrlConnection.query(sql, (err, rows) => {
      if (err) return this.emit('error', err);
      if (rows.length === 0) {
        this.emit('error', new Error(
          `Insufficient permissions to access [${tableMapEvent.schemaName}.${tableMapEvent.tableName}], or the table has been dropped.`));
        return;
      }
      this.tableMap[tableMapEvent.tableId] = {
        columnSchemas: rows,
        parentSchema: tableMapEvent.schemaName,
        tableName: tableMapEvent.tableName
      };
      next();
    });
  };
  \<close>
  The call sends the query; the callback runs when the answer has come.
\<close>

definition fetchTableInfo_sql :: "table_map_event \<Rightarrow> string" where
  "fetchTableInfo_sql ev = util_format TableInfoQueryTemplate [schemaName ev, tableName ev]"

definition fetchTableInfo :: "table_map_event \<Rightarrow> zongji \<Rightarrow> zongji" where
  "fetchTableInfo ev s =
     (query CtrlConnection (fetchTableInfo_sql ev) s)
       \<lparr>tableInfo_pending := tableInfo_pending s @ [ev]\<rparr>"

definition missing_table_error :: "table_map_event \<Rightarrow> js_error" where
  "missing_table_error ev =
     JsError ''Error''
       (''Insufficient permissions to access ['' @ schemaName ev @ ''.'' @ tableName ev @
        ''], or the table has been dropped.'')"

definition fetchTableInfo_callback ::
  "table_map_event \<Rightarrow> js_error + column_row list \<Rightarrow> zongji \<Rightarrow> zongji" where
  "fetchTableInfo_callback ev res s =
     (case res of
        Inl err \<Rightarrow> emit (ErrorN err) s
      | Inr rows \<Rightarrow>
          if length rows = 0 then emit (ErrorN (missing_table_error ev)) s
          else effect (TableInfoNext ev)
                 (s\<lparr>tableMap := (tableMap s)(tableId ev \<mapsto>
                       \<lparr>columnSchemas = rows,
                        parentSchema = schemaName ev,
                        entry_tableName = tableName ev\<rparr>)\<rparr>))"

section \<open>Start and stop\<close>

subsection \<open>The promises of \<open>start\<close>\<close>

text \<open>\<open>resolve()\<close> and \<open>reject(err)\<close> act on a pending promise only.\<close>

definition settle_with :: "promise \<Rightarrow> promise \<Rightarrow> promise" where
  "settle_with outcome p = (if p = Pending then outcome else p)"

fun rejection :: "promise \<Rightarrow> js_error option" where
  "rejection (Rejected e) = Some e"
| "rejection p = None"

definition start_promises :: "zongji \<Rightarrow> promise list" where
  "start_promises s =
     testChecksum s # (case findBinlogEnd s of None \<Rightarrow> [] | Some p \<Rightarrow> [p])"

text \<open>
  \<^verbatim>\<open>
    .then(() => {
      this.BinlogClass = initBinlogClass(this);
      if (!this.stopped) {
        this.binlogStream = new this.BinlogClass((err, evt) => this.emit('binlog', evt, err));
        if (typeof this.binlogStream.start === 'function') {
          this.binlogStream.start(this.connection);
        }
        this.ready = true;
        this.emit('ready');
      }
    })
    .catch((err) => this.emit('error', err));
  \<close>
\<close>

definition start_then :: "zongji \<Rightarrow> zongji" where
  "start_then s =
     (let s = effect InitBinlogClass s
      in if \<not> stopped s
         then emit ReadyN ((effect (BinlogStart (options s)) s)\<lparr>ready := True\<rparr>)
         else s)"

text \<open>
  \<open>Promise.all\<close> rejects with the first rejection and resolves once every promise has
  resolved; its handlers run once. \<open>drain\<close> is run at the end of \<open>start\<close> and of
  every callback of its queries, when the promise jobs that the task has queued are run.
\<close>

definition drain :: "zongji \<Rightarrow> zongji" where
  "drain s =
     (if settled s then s
      else case List.map_filter rejection (start_promises s) of
             e # _ \<Rightarrow> emit (ErrorN e) (s\<lparr>settled := True\<rparr>)
           | [] \<Rightarrow>
               if list_all (\<lambda>p. p = Resolved) (start_promises s)
               then start_then (s\<lparr>settled := True\<rparr>)
               else s)"

text \<open>\<open>Promise.all\<close> resolves now: it has not settled, and every promise has resolved.\<close>

definition can_resolve :: "zongji \<Rightarrow> bool" where
  "can_resolve s \<longleftrightarrow>
     \<not> settled s \<and> List.map_filter rejection (start_promises s) = [] \<and>
     list_all (\<lambda>p. p = Resolved) (start_promises s)"

subsection \<open>Checksum negotiation\<close>

text \<open>
  The callback that \<open>start\<close> gives to \<open>_isChecksumEnabled\<close>:
  \<^verbatim>\<open>
    this._isChecksumEnabled((err, checksumEnabled) => {
      if (err) reject(err);
      else {
        this.useChecksum = checksumEnabled;
        resolve();
      }
    });
  \<close>
  It is called as \<open>next(err)\<close> or as \<open>next(null, checksumEnabled)\<close>.
\<close>

definition next_error :: "js_error \<Rightarrow> zongji \<Rightarrow> zongji" where
  "next_error err s =
     (effect (Next (Some err) None) s)
       \<lparr>testChecksum := settle_with (Rejected err) (testChecksum s)\<rparr>"

definition next_ok :: "bool \<Rightarrow> zongji \<Rightarrow> zongji" where
  "next_ok enabled s =
     (effect (Next None (Some enabled)) s)
       \<lparr>useChecksum := enabled,
        testChecksum := settle_with Resolved (testChecksum s)\<rparr>"

definition SelectChecksumParamSql :: string where
  "SelectChecksumParamSql = ''select @@GLOBAL.binlog_checksum as checksum''"

definition SetChecksumSql :: string where
  "SetChecksumSql = ''set @master_binlog_checksum=@@global.binlog_checksum''"

text \<open>
  \<^verbatim>\<open>
  let checksumEnabled = true;
  query(this.ctrlConnection, SelectChecksumParamSql)
    .then((rows) => {
      if (rows[0].checksum === 'NONE') {
        checksumEnabled = false;
        return query(this.connection, 'SELECT 1');
      }
      if (checksumEnabled) {
        return query(this.connection, SetChecksumSql);
      }
    })
    .catch((err) => {
      if (err.toString().match(/ER_UNKNOWN_SYSTEM_VARIABLE/)) {
        checksumEnabled = false;
        return query(this.connection, 'SELECT 1');
      } else {
        next(err);
      }
    })
    .then(() => {
      next(null, checksumEnabled);
    });
  \<close>
  One definition for the call and one for each of the three handlers. A handler that
  returns the promise of a query leaves the chain waiting for that query; a handler that
  returns nothing lets the chain run on to the next handler in the same turn.
\<close>

definition isChecksumEnabled :: "zongji \<Rightarrow> zongji" where
  "isChecksumEnabled s =
     (query CtrlConnection SelectChecksumParamSql s)
       \<lparr>checksumEnabled := True, checksum_stage := SelectInFlight\<rparr>"

definition checksum_last_then :: "zongji \<Rightarrow> zongji" where
  "checksum_last_then s = (next_ok (checksumEnabled s) s)\<lparr>checksum_stage := Finished\<rparr>"

definition checksum_catch :: "js_error \<Rightarrow> zongji \<Rightarrow> zongji" where
  "checksum_catch err s =
     (if matches_literal ''ER_UNKNOWN_SYSTEM_VARIABLE'' (err_toString err)
      then (query Connection ''SELECT 1'' s)
             \<lparr>checksumEnabled := False, checksum_stage := StreamInFlightCatch\<rparr>
      else checksum_last_then (next_error err s))"

text \<open>\<open>rows[0].checksum\<close> on an empty result throws a \<open>TypeError\<close>, which the
  \<open>catch\<close> handler receives.\<close>

definition no_row_error :: js_error where
  "no_row_error =
     JsError ''TypeError'' ''Cannot read properties of undefined (reading 'checksum')''"

definition checksum_first_then :: "checksum_row list \<Rightarrow> zongji \<Rightarrow> zongji" where
  "checksum_first_then rows s =
     (case rows of
        [] \<Rightarrow> checksum_catch no_row_error s
      | r # _ \<Rightarrow>
          if checksum r = ''NONE''
          then (query Connection ''SELECT 1'' s)
                 \<lparr>checksumEnabled := False, checksum_stage := StreamInFlightThen\<rparr>
          else if checksumEnabled s
          then (query Connection SetChecksumSql s)\<lparr>checksum_stage := StreamInFlightThen\<rparr>
          else checksum_last_then s)"

text \<open>The answer to the first query, and the answer to the query on the stream
  connection. A rejection of the query that the \<open>catch\<close> handler returned reaches no
  handler: the last \<open>then\<close> has none for it, and \<open>next\<close> is never called.\<close>

definition checksum_select_done :: "js_error + checksum_row list \<Rightarrow> zongji \<Rightarrow> zongji" where
  "checksum_select_done res s =
     (case res of Inl err \<Rightarrow> checksum_catch err s | Inr rows \<Rightarrow> checksum_first_then rows s)"

definition checksum_stream_done :: "js_error + unit \<Rightarrow> zongji \<Rightarrow> zongji" where
  "checksum_stream_done res s =
     (case res of
        Inr _ \<Rightarrow> checksum_last_then s
      | Inl err \<Rightarrow>
          if checksum_stage s = StreamInFlightThen then checksum_catch err s
          else (effect (UnhandledRejection err) s)\<lparr>checksum_stage := Abandoned\<rparr>)"

subsection \<open>Tail position\<close>

text \<open>
  \<^verbatim>\<open>
  ZongJi.prototype._findBinlogEnd = function (next) {
    this.ctrlConnection.query('SHOW BINARY LOGS', (err, rows) => {
      if (err) return next(err);
      next(null, rows.length > 0 ? rows[rows.length - 1] : null);
    });
  };
  \<close>
  and the callback that \<open>start\<close> gives it:
  \<^verbatim>\<open>
    this._findBinlogEnd((err, result) => {
      if (err) return reject(err);
      if (result) {
        this._options(Object.assign({}, options,
          { filename: result.Log_name, position: result.File_size }));
      }
      resolve();
    });
  \<close>
\<close>

definition binlogEnd_result :: "binlog_row list \<Rightarrow> binlog_row option" where
  "binlogEnd_result rows = (if length rows > 0 then Some (rows ! (length rows - 1)) else None)"

definition findBinlogEnd_callback :: "js_error + binlog_row list \<Rightarrow> zongji \<Rightarrow> zongji" where
  "findBinlogEnd_callback res s =
     (case res of
        Inl err \<Rightarrow> s\<lparr>findBinlogEnd := map_option (settle_with (Rejected err)) (findBinlogEnd s)\<rparr>
      | Inr rows \<Rightarrow>
          (let s = (case binlogEnd_result rows of
                      Some result \<Rightarrow>
                        s\<lparr>options := (start_options s)
                             \<lparr>filename := Some (Log_name result),
                              position := Some (File_size result)\<rparr>\<rparr>
                    | None \<Rightarrow> s)
           in s\<lparr>findBinlogEnd := map_option (settle_with Resolved) (findBinlogEnd s)\<rparr>))"

subsection \<open>\<open>start\<close> and \<open>stop\<close>\<close>

text \<open>
  \<^verbatim>\<open>
  ZongJi.prototype.start = function (options = {}) {
    this._options(options);
    this._filters(options);
    const testChecksum = (resolve, reject) => {
      if (this.stopped) return resolve();
      this._isChecksumEnabled(...);
    };
    const findBinlogEnd = (resolve, reject) => {
      if (this.stopped) return resolve();
      this._findBinlogEnd(...);
    };
    Promise.all([new Promise(testChecksum),
                 options.startAtEnd ? new Promise(findBinlogEnd) : null].filter(Boolean))
      .then(...).catch(...);
  };
  \<close>
  The argument carries the options and the filters. \<open>start_executors\<close> is what the
  call does itself, the two executors included; the handlers of \<open>Promise.all\<close> run
  after it.
\<close>

definition start_executors :: "session_options \<Rightarrow> filters \<Rightarrow> zongji \<Rightarrow> zongji" where
  "start_executors opts flt s =
     (let s = s\<lparr>options := opts, filters := flt, started := True, start_options := opts\<rparr>;
          s = (if stopped s then s\<lparr>testChecksum := Resolved\<rparr>
               else isChecksumEnabled (s\<lparr>testChecksum := Pending\<rparr>))
      in if startAtEnd opts = Some True
         then (if stopped s then s\<lparr>findBinlogEnd := Some Resolved\<rparr>
               else query CtrlConnection ''SHOW BINARY LOGS''
                      (s\<lparr>findBinlogEnd := Some Pending\<rparr>))
         else s\<lparr>findBinlogEnd := None\<rparr>)"

definition start :: "session_options \<Rightarrow> filters \<Rightarrow> zongji \<Rightarrow> zongji" where
  "start opts flt s = drain (start_executors opts flt s)"

text \<open>
  \<^verbatim>\<open>
  ZongJi.prototype.stop = function () {
    if (!this.stopped) {
      this.stopped = true;
      if (this.connection.destroy) this.connection.destroy();
      if (this.ctrlConnection.query) {
        this.ctrlConnection.query('KILL ' + this.connection.threadId, () => {
          if (this.ctrlConnectionOwner && this.ctrlConnection.destroy) this.ctrlConnection.destroy();
          this.emit('stopped');
        });
      }
    }
  };
  \<close>
  Both connections come from \<open>mysql.createConnection\<close> and have \<open>destroy\<close> and
  \<open>query\<close>. The callback of the \<open>KILL\<close> query does not look at its arguments.
\<close>

definition stop :: "zongji \<Rightarrow> zongji" where
  "stop s =
     (if \<not> stopped s
      then (query CtrlConnection (''KILL '' @ threadId s)
              (effect (Destroy Connection) (s\<lparr>stopped := True\<rparr>)))
             \<lparr>kill_pending := True\<rparr>
      else s)"

definition kill_callback :: "zongji \<Rightarrow> zongji" where
  "kill_callback s =
     emit StoppedN
       ((if ctrlConnectionOwner s then effect (Destroy CtrlConnection) s else s)
          \<lparr>kill_pending := False\<rparr>)"

subsection \<open>Tasks\<close>

text \<open>
  The program runs one task at a time: a call of the consumer (\<open>start\<close>, \<open>stop\<close>),
  a call of the decoder (\<open>_fetchTableInfo\<close>), the callback of a query whose answer has
  come, or an \<open>error\<close> event of a connection, which the session emits again
  (\<open>connection.on('error', this.emit.bind(this, 'error'))\<close>). The answers are the
  server's, so they are part of the event. A task is possible only in a state in which its
  query is in flight; \<open>step\<close> gives \<open>None\<close> otherwise. One \<open>start\<close> call is followed;
  a second one is outside the model.
\<close>

datatype event =
    CallStart session_options filters
  | CallStop
  | ChecksumSelectDone "js_error + checksum_row list"
  | StreamQueryDone "js_error + unit"
  | BinlogEndDone "js_error + binlog_row list"
  | KillDone "js_error option"
  | ConnectionError js_error
  | CallFetchTableInfo table_map_event
  | TableInfoDone table_map_event "js_error + column_row list"

fun step :: "event \<Rightarrow> zongji \<Rightarrow> zongji option" where
  "step (CallStart opts flt) s = (if started s then None else Some (start opts flt s))"
| "step CallStop s = Some (stop s)"
| "step (ChecksumSelectDone res) s =
     (if checksum_stage s = SelectInFlight
      then Some (drain (checksum_select_done res s)) else None)"
| "step (StreamQueryDone res) s =
     (if checksum_stage s = StreamInFlightThen \<or> checksum_stage s = StreamInFlightCatch
      then Some (drain (checksum_stream_done res s)) else None)"
| "step (BinlogEndDone res) s =
     (if findBinlogEnd s = Some Pending
      then Some (drain (findBinlogEnd_callback res s)) else None)"
| "step (KillDone err) s = (if kill_pending s then Some (kill_callback s) else None)"
| "step (ConnectionError err) s = Some (emit (ErrorN err) s)"
| "step (CallFetchTableInfo ev) s = Some (fetchTableInfo ev s)"
| "step (TableInfoDone ev res) s =
     (if ev \<in> set (tableInfo_pending s)
      then Some (fetchTableInfo_callback ev res
                   (s\<lparr>tableInfo_pending := remove1 ev (tableInfo_pending s)\<rparr>))
      else None)"

fun run :: "event list \<Rightarrow> zongji \<Rightarrow> zongji option" where
  "run [] s = Some s"
| "run (e # es) s = (case step e s of None \<Rightarrow> None | Some s' \<Rightarrow> run es s')"

subsection \<open>What is observed of a run, and what holds in every state of one\<close>

text \<open>The options with which the decoder was started, in order.\<close>

fun binlog_starts :: "effect list \<Rightarrow> session_options list" where
  "binlog_starts [] = []"
| "binlog_starts (BinlogStart opts # xs) = opts # binlog_starts xs"
| "binlog_starts (x # xs) = binlog_starts xs"

abbreviation decoder_starts :: "zongji \<Rightarrow> session_options list" where
  "decoder_starts s \<equiv> binlog_starts (effects s)"

text \<open>
  A task in which nothing failed: a call, the \<open>KILL\<close> callback, or the callback of a
  query that the server answered without error (and, where the code reads the first row
  or needs one, with at least one row).
\<close>

fun answered_ok :: "event \<Rightarrow> bool" where
  "answered_ok (CallStart opts flt) = True"
| "answered_ok CallStop = True"
| "answered_ok (ChecksumSelectDone res) = (case res of Inr (r # rs) \<Rightarrow> True | _ \<Rightarrow> False)"
| "answered_ok (StreamQueryDone res) = (case res of Inr u \<Rightarrow> True | Inl err \<Rightarrow> False)"
| "answered_ok (BinlogEndDone res) = (case res of Inr rows \<Rightarrow> True | Inl err \<Rightarrow> False)"
| "answered_ok (KillDone err) = True"
| "answered_ok (ConnectionError err) = False"
| "answered_ok (CallFetchTableInfo ev) = True"
| "answered_ok (TableInfoDone ev res) = (case res of Inr (r # rs) \<Rightarrow> True | _ \<Rightarrow> False)"

fun is_KillDone :: "event \<Rightarrow> bool" where
  "is_KillDone (KillDone err) = True"
| "is_KillDone e = False"

text \<open>One \<open>stopped\<close> notification for one \<open>stop\<close>: emitted, or due from the \<open>KILL\<close>
  callback that is pending.\<close>

definition kill_inv :: "zongji \<Rightarrow> bool" where
  "kill_inv s \<longleftrightarrow>
     count_list (emitted s) StoppedN + (if kill_pending s then 1 else 0) =
       (if stopped s then 1 else (0::nat))"

text \<open>Until the handler of \<open>Promise.all\<close> has run, the session is not ready and the
  decoder has not been started.\<close>

definition ready_inv :: "zongji \<Rightarrow> bool" where
  "ready_inv s \<longleftrightarrow>
     (if settled s then True
      else \<not> ready s \<and> count_list (emitted s) ReadyN = 0 \<and> decoder_starts s = [])"

text \<open>A rejected promise has been handled, and \<open>Promise.all\<close> has settled once none of
  its promises is pending.\<close>

definition settle_inv :: "zongji \<Rightarrow> bool" where
  "settle_inv s \<longleftrightarrow>
     (if settled s then True
      else List.map_filter rejection (start_promises s) = [] \<and>
           \<not> list_all (\<lambda>p. p = Resolved) (start_promises s))"

text \<open>While a query of the checksum negotiation is in flight its promise is pending;
  while the first one is, \<open>checksumEnabled\<close> still has its initial value.\<close>

definition stage_inv :: "zongji \<Rightarrow> bool" where
  "stage_inv s \<longleftrightarrow>
     (case checksum_stage s of
        Idle \<Rightarrow> started s \<and> testChecksum s = Resolved \<or> \<not> started s
      | SelectInFlight \<Rightarrow> started s \<and> testChecksum s = Pending \<and> checksumEnabled s
      | StreamInFlightThen \<Rightarrow> started s \<and> testChecksum s = Pending
      | StreamInFlightCatch \<Rightarrow> started s \<and> testChecksum s = Pending
      | Finished \<Rightarrow> started s \<and> testChecksum s \<noteq> Pending
      | Abandoned \<Rightarrow> started s \<and> testChecksum s = Pending)"

text \<open>While the log listing is in flight the options are still those of the caller, who
  asked for the tail; and the decoder is started only after every promise has resolved.\<close>

definition tail_inv :: "zongji \<Rightarrow> bool" where
  "tail_inv s \<longleftrightarrow>
     (if started s
      then (if findBinlogEnd s = Some Pending
            then options s = start_options s \<and> startAtEnd (start_options s) = Some True
            else True) \<and>
           (decoder_starts s = [] \<or> list_all (\<lambda>p. p = Resolved) (start_promises s))
      else decoder_starts s = [] \<and> findBinlogEnd s = None)"

text \<open>All of them together.\<close>

definition session_inv :: "zongji \<Rightarrow> bool" where
  "session_inv s \<longleftrightarrow> kill_inv s \<and> ready_inv s \<and> settle_inv s \<and> stage_inv s \<and> tail_inv s"

subsection \<open>Concrete inputs\<close>

text \<open>Events, rows and runs at which the results below are evaluated.\<close>

definition example_event :: table_map_event where
  "example_event = \<lparr>tableId = 42, schemaName = ''shop'', tableName = ''orders''\<rparr>"

definition example_event' :: table_map_event where
  "example_event' = \<lparr>tableId = 42, schemaName = ''shop'', tableName = ''orders_v2''\<rparr>"

definition example_column :: "string \<Rightarrow> column_row" where
  "example_column n =
     \<lparr>COLUMN_NAME = n, COLLATION_NAME = None, CHARACTER_SET_NAME = None,
      COLUMN_COMMENT = [], COLUMN_TYPE = ''int''\<rparr>"

definition quoted_event :: table_map_event where
  "quoted_event = \<lparr>tableId = 1, schemaName = ''db'', tableName = ''t' OR '1'='1''\<rparr>"

definition example_options :: session_options where
  "example_options =
     \<lparr>serverId = Some 1, filename = Some ''log.000001'', position = Some 4,
      startAtEnd = Some True\<rparr>"

definition plain_options :: session_options where
  "plain_options = \<lparr>serverId = Some 1, filename = None, position = None, startAtEnd = None\<rparr>"

definition example_error :: js_error where
  "example_error = JsError ''Error'' ''connect ETIMEDOUT''"

definition closed_error :: js_error where
  "closed_error =
     JsError ''Error'' ''Can't add new command when connection is in closed state''"

definition last_log :: binlog_row where
  "last_log = \<lparr>Log_name = ''log.000005'', File_size = 1540\<rparr>"

definition example_streaming :: zongji where
  "example_streaming =
     the (run [CallStart \<lparr>serverId = Some 1, filename = None, position = None, startAtEnd = None\<rparr>
                 no_filters,
               ChecksumSelectDone (Inr [\<lparr>checksum = ''CRC32''\<rparr>]),
               StreamQueryDone (Inr ()),
               CallFetchTableInfo example_event] (new_ZongJi ''7''))"

section \<open>Filter policy: results\<close>

text \<open>
  C3. For every event name and every filter configuration, \<open>_skipEvent\<close> returns true
  exactly when \<open>excludeEvents\<close> is present and contains the name, or \<open>includeEvents\<close>
  is present and does not contain it. In particular a name that is in both lists is
  skipped: exclusion wins over inclusion.
\<close>

theorem skipEvent_iff:
  "(skipEvent f n \<longleftrightarrow>
      (\<exists>es. excludeEvents f = Some es \<and> n \<in> set es) \<or>
      (\<exists>is. includeEvents f = Some is \<and> n \<notin> set is)) \<and>
   (includeEvents f = Some is \<and> excludeEvents f = Some es \<and> n \<in> set is \<and> n \<in> set es
      \<longrightarrow> skipEvent f n)"
  by (auto simp: skipEvent_def split: option.splits)

theorem skipEvent_iff_witness:
  "skipEvent \<lparr>includeEvents = Some [''WriteRows''], excludeEvents = Some [''WriteRows''],
              includeSchema = None, excludeSchema = None\<rparr> ''WriteRows'' \<and>
   \<not> skipEvent \<lparr>includeEvents = Some [''WriteRows''], excludeEvents = None,
              includeSchema = None, excludeSchema = None\<rparr> ''WriteRows''"
  using skipEvent_iff [of "\<lparr>includeEvents = Some [''WriteRows''], excludeEvents = Some [''WriteRows''],
              includeSchema = None, excludeSchema = None\<rparr>" "''WriteRows''" "[''WriteRows'']" "[''WriteRows'']"]
        skipEvent_iff [of "\<lparr>includeEvents = Some [''WriteRows''], excludeEvents = None,
              includeSchema = None, excludeSchema = None\<rparr>" "''WriteRows''"]
  by simp

text \<open>
  For a schema name that is not a member name of \<open>Object.prototype\<close>, \<open>_skipSchema\<close>
  is the three-way policy: excluded by an own rule of \<open>excludeSchema\<close>, or an
  \<open>includeSchema\<close> is present and has no own rule for the schema that covers the table.
\<close>

lemma get_property_own:
  "map_of object_prototype db = None \<Longrightarrow> get_property obj db = map_option OwnRule (obj db)"
  by (simp add: get_property_def split: option.splits)

lemma rule_matches_own: "rule_matches obj (OwnRule r) table = Inr (rule_covers r table)"
  by (cases r) simp_all

lemma schema_test_own:
  "map_of object_prototype db = None \<Longrightarrow>
   schema_test obj db table = Inr (\<exists>r. obj db = Some r \<and> rule_covers r table)"
  by (simp add: schema_test_def get_property_own rule_matches_own split: option.splits)

lemma skipSchema_own_rules:
  assumes "map_of object_prototype db = None"
  shows "skipSchema f db table =
     Inr ((\<exists>ex r. excludeSchema f = Some ex \<and> ex db = Some r \<and> rule_covers r table) \<or>
          (\<exists>inc. includeSchema f = Some inc \<and> \<not> (\<exists>r. inc db = Some r \<and> rule_covers r table)))"
  using assms by (auto simp: skipSchema_def schema_test_own split: option.splits)

text \<open>
  C4. The claim is that a pair is skipped exactly when a rule of \<open>excludeSchema\<close>
  matches it or \<open>includeSchema\<close> is present without a matching rule, an absent
  \<open>excludeSchema\<close> excluding nothing. On a session without any filter the code skips the
  table \<open>t\<close> of a schema named \<open>constructor\<close>: \<open>excludes\<close> is \<open>{}\<close>,
  \<open>'constructor' in {}\<close> is true through the prototype chain, the property is a
  function, and \<open>Object('t')\<close> is truthy.
\<close>

theorem skipSchema_constructor_no_filters:
  "skipSchema no_filters ''constructor'' ''t'' = Inr True"
  by (simp add: skipSchema_def no_filters_def schema_test_def get_property_def
        object_prototype_def)

section \<open>The session: how each task changes the state\<close>

text \<open>
  For each function that a task is made of: the fields it leaves alone, and what it adds
  to the notifications and to the starts of the decoder.
\<close>

lemmas checksum_defs =
  next_error_def next_ok_def isChecksumEnabled_def checksum_last_then_def
  checksum_catch_def checksum_first_then_def checksum_select_done_def
  checksum_stream_done_def settle_with_def emit_def query_def effect_def

lemma notifications_append [simp]:
  "notifications (xs @ ys) = notifications xs @ notifications ys"
  by (induction xs rule: notifications.induct) simp_all

lemma binlog_starts_append [simp]:
  "binlog_starts (xs @ ys) = binlog_starts xs @ binlog_starts ys"
  by (induction xs rule: binlog_starts.induct) simp_all

lemma select_done_frame [simp]:
  "options (checksum_select_done r s) = options s"
  "tableMap (checksum_select_done r s) = tableMap s"
  "ready (checksum_select_done r s) = ready s"
  "stopped (checksum_select_done r s) = stopped s"
  "started (checksum_select_done r s) = started s"
  "start_options (checksum_select_done r s) = start_options s"
  "findBinlogEnd (checksum_select_done r s) = findBinlogEnd s"
  "settled (checksum_select_done r s) = settled s"
  "kill_pending (checksum_select_done r s) = kill_pending s"
  "emitted (checksum_select_done r s) = emitted s"
  "decoder_starts (checksum_select_done r s) = decoder_starts s"
  by (simp_all add: checksum_defs split: sum.splits list.splits)

lemma stream_done_frame [simp]:
  "options (checksum_stream_done r s) = options s"
  "tableMap (checksum_stream_done r s) = tableMap s"
  "ready (checksum_stream_done r s) = ready s"
  "stopped (checksum_stream_done r s) = stopped s"
  "started (checksum_stream_done r s) = started s"
  "start_options (checksum_stream_done r s) = start_options s"
  "findBinlogEnd (checksum_stream_done r s) = findBinlogEnd s"
  "settled (checksum_stream_done r s) = settled s"
  "kill_pending (checksum_stream_done r s) = kill_pending s"
  "emitted (checksum_stream_done r s) = emitted s"
  "decoder_starts (checksum_stream_done r s) = decoder_starts s"
  by (simp_all add: checksum_defs split: sum.splits list.splits)

lemma binlogEnd_callback_frame [simp]:
  "tableMap (findBinlogEnd_callback r s) = tableMap s"
  "ready (findBinlogEnd_callback r s) = ready s"
  "stopped (findBinlogEnd_callback r s) = stopped s"
  "started (findBinlogEnd_callback r s) = started s"
  "start_options (findBinlogEnd_callback r s) = start_options s"
  "useChecksum (findBinlogEnd_callback r s) = useChecksum s"
  "checksumEnabled (findBinlogEnd_callback r s) = checksumEnabled s"
  "checksum_stage (findBinlogEnd_callback r s) = checksum_stage s"
  "testChecksum (findBinlogEnd_callback r s) = testChecksum s"
  "settled (findBinlogEnd_callback r s) = settled s"
  "kill_pending (findBinlogEnd_callback r s) = kill_pending s"
  "effects (findBinlogEnd_callback r s) = effects s"
  "emitted (findBinlogEnd_callback r s) = emitted s"
  "decoder_starts (findBinlogEnd_callback r s) = decoder_starts s"
  by (simp_all add: findBinlogEnd_callback_def Let_def
        split: sum.splits option.splits)

lemma start_executors_frame [simp]:
  "options (start_executors opts flt s) = opts"
  "start_options (start_executors opts flt s) = opts"
  "tableMap (start_executors opts flt s) = tableMap s"
  "ready (start_executors opts flt s) = ready s"
  "stopped (start_executors opts flt s) = stopped s"
  "started (start_executors opts flt s) = True"
  "useChecksum (start_executors opts flt s) = useChecksum s"
  "settled (start_executors opts flt s) = settled s"
  "kill_pending (start_executors opts flt s) = kill_pending s"
  "emitted (start_executors opts flt s) = emitted s"
  "decoder_starts (start_executors opts flt s) = decoder_starts s"
  by (simp_all add: start_executors_def isChecksumEnabled_def query_def effect_def
        Let_def)

lemma drain_frame [simp]:
  "options (drain s) = options s"
  "tableMap (drain s) = tableMap s"
  "stopped (drain s) = stopped s"
  "started (drain s) = started s"
  "start_options (drain s) = start_options s"
  "useChecksum (drain s) = useChecksum s"
  "checksumEnabled (drain s) = checksumEnabled s"
  "checksum_stage (drain s) = checksum_stage s"
  "testChecksum (drain s) = testChecksum s"
  "findBinlogEnd (drain s) = findBinlogEnd s"
  "kill_pending (drain s) = kill_pending s"
  "start_promises (drain s) = start_promises s"
  by (simp_all add: drain_def start_then_def start_promises_def emit_def effect_def Let_def
        split: list.splits)

text \<open>What the handlers of \<open>Promise.all\<close> add.\<close>

lemma drain_emitted:
  "emitted (drain s) = emitted s @
     (if settled s then []
      else case List.map_filter rejection (start_promises s) of
             e # es \<Rightarrow> [ErrorN e]
           | [] \<Rightarrow> if can_resolve s \<and> \<not> stopped s then [ReadyN] else [])"
  by (simp add: drain_def start_then_def can_resolve_def emit_def effect_def Let_def
        split: list.splits)

lemma drain_decoder_starts:
  "decoder_starts (drain s) = decoder_starts s @
     (if can_resolve s \<and> \<not> stopped s then [options s] else [])"
  by (simp add: drain_def start_then_def can_resolve_def emit_def effect_def Let_def
        split: list.splits)

lemma drain_ready:
  "ready (drain s) = (ready s \<or> can_resolve s \<and> \<not> stopped s)"
  by (simp add: drain_def start_then_def can_resolve_def emit_def effect_def Let_def
        split: list.splits)

lemma drain_settled:
  "settled (drain s) =
     (settled s \<or> List.map_filter rejection (start_promises s) \<noteq> [] \<or>
      list_all (\<lambda>p. p = Resolved) (start_promises s))"
  by (simp add: drain_def start_then_def emit_def effect_def Let_def split: list.splits)

lemmas small_defs =
  stop_def kill_callback_def fetchTableInfo_def fetchTableInfo_callback_def
  emit_def query_def effect_def

lemma stop_frame [simp]:
  "options (stop s) = options s"
  "ready (stop s) = ready s"
  "started (stop s) = started s"
  "start_options (stop s) = start_options s"
  "checksumEnabled (stop s) = checksumEnabled s"
  "checksum_stage (stop s) = checksum_stage s"
  "testChecksum (stop s) = testChecksum s"
  "findBinlogEnd (stop s) = findBinlogEnd s"
  "settled (stop s) = settled s"
  "start_promises (stop s) = start_promises s"
  "decoder_starts (stop s) = decoder_starts s"
  "tableMap (stop s) = tableMap s"
  by (simp_all add: small_defs start_promises_def split: sum.splits)

lemma kill_callback_frame [simp]:
  "options (kill_callback s) = options s"
  "ready (kill_callback s) = ready s"
  "started (kill_callback s) = started s"
  "start_options (kill_callback s) = start_options s"
  "checksumEnabled (kill_callback s) = checksumEnabled s"
  "checksum_stage (kill_callback s) = checksum_stage s"
  "testChecksum (kill_callback s) = testChecksum s"
  "findBinlogEnd (kill_callback s) = findBinlogEnd s"
  "settled (kill_callback s) = settled s"
  "start_promises (kill_callback s) = start_promises s"
  "decoder_starts (kill_callback s) = decoder_starts s"
  "stopped (kill_callback s) = stopped s"
  "tableMap (kill_callback s) = tableMap s"
  by (simp_all add: small_defs start_promises_def split: sum.splits)

lemma emit_frame [simp]:
  "options (emit n s) = options s"
  "ready (emit n s) = ready s"
  "started (emit n s) = started s"
  "start_options (emit n s) = start_options s"
  "checksumEnabled (emit n s) = checksumEnabled s"
  "checksum_stage (emit n s) = checksum_stage s"
  "testChecksum (emit n s) = testChecksum s"
  "findBinlogEnd (emit n s) = findBinlogEnd s"
  "settled (emit n s) = settled s"
  "start_promises (emit n s) = start_promises s"
  "decoder_starts (emit n s) = decoder_starts s"
  "stopped (emit n s) = stopped s"
  "kill_pending (emit n s) = kill_pending s"
  "tableMap (emit n s) = tableMap s"
  by (simp_all add: small_defs start_promises_def split: sum.splits)

lemma fetchTableInfo_frame [simp]:
  "options (fetchTableInfo ev s) = options s"
  "ready (fetchTableInfo ev s) = ready s"
  "started (fetchTableInfo ev s) = started s"
  "start_options (fetchTableInfo ev s) = start_options s"
  "checksumEnabled (fetchTableInfo ev s) = checksumEnabled s"
  "checksum_stage (fetchTableInfo ev s) = checksum_stage s"
  "testChecksum (fetchTableInfo ev s) = testChecksum s"
  "findBinlogEnd (fetchTableInfo ev s) = findBinlogEnd s"
  "settled (fetchTableInfo ev s) = settled s"
  "start_promises (fetchTableInfo ev s) = start_promises s"
  "decoder_starts (fetchTableInfo ev s) = decoder_starts s"
  "stopped (fetchTableInfo ev s) = stopped s"
  "kill_pending (fetchTableInfo ev s) = kill_pending s"
  "emitted (fetchTableInfo ev s) = emitted s"
  "tableMap (fetchTableInfo ev s) = tableMap s"
  by (simp_all add: small_defs start_promises_def split: sum.splits)

lemma fetchTableInfo_callback_frame [simp]:
  "options (fetchTableInfo_callback ev res s) = options s"
  "ready (fetchTableInfo_callback ev res s) = ready s"
  "started (fetchTableInfo_callback ev res s) = started s"
  "start_options (fetchTableInfo_callback ev res s) = start_options s"
  "checksumEnabled (fetchTableInfo_callback ev res s) = checksumEnabled s"
  "checksum_stage (fetchTableInfo_callback ev res s) = checksum_stage s"
  "testChecksum (fetchTableInfo_callback ev res s) = testChecksum s"
  "findBinlogEnd (fetchTableInfo_callback ev res s) = findBinlogEnd s"
  "settled (fetchTableInfo_callback ev res s) = settled s"
  "start_promises (fetchTableInfo_callback ev res s) = start_promises s"
  "decoder_starts (fetchTableInfo_callback ev res s) = decoder_starts s"
  "stopped (fetchTableInfo_callback ev res s) = stopped s"
  "kill_pending (fetchTableInfo_callback ev res s) = kill_pending s"
  by (simp_all add: small_defs start_promises_def split: sum.splits)

lemma pending_update_frame [simp]:
  "start_promises (s\<lparr>tableInfo_pending := x\<rparr>) = start_promises s"
  by (simp add: start_promises_def)

text \<open>A property that the new session has and every task keeps holds after every run.\<close>

lemma run_append:
  "run (xs @ ys) s = (case run xs s of None \<Rightarrow> None | Some s' \<Rightarrow> run ys s')"
  by (induction xs arbitrary: s) (simp_all split: option.splits)

lemma run_invariant:
  assumes "run evs s = Some s'" and "P s"
    and "\<And>e s s'. P s \<Longrightarrow> step e s = Some s' \<Longrightarrow> P s'"
  shows "P s'"
  using assms(1,2)
proof (induction evs arbitrary: s)
  case Nil
  then show ?case by simp
next
  case (Cons e evs)
  then show ?case using assms(3) by (auto split: option.splits)
qed

text \<open>Every task keeps \<open>kill_inv\<close> and \<open>ready_inv\<close>; on a stopped session no task
  makes the session ready.\<close>

lemma drain_count_StoppedN [simp]:
  "count_list (emitted (drain s)) StoppedN = count_list (emitted s) StoppedN"
  by (simp add: drain_emitted split: list.splits)

lemma kill_inv_step:
  assumes "kill_inv s" and "step e s = Some s'"
  shows "kill_inv s'"
  using assms
  by (cases e) (auto simp: kill_inv_def start_def small_defs split: if_splits sum.splits)

lemma stopped_step:
  assumes "stopped s" and "step e s = Some s'"
  shows "stopped s' \<and> (if kill_pending s' then kill_pending s else True)
       \<and> ready s' = ready s
       \<and> count_list (emitted s') ReadyN = count_list (emitted s) ReadyN
       \<and> decoder_starts s' = decoder_starts s"
  using assms
  by (cases e)
     (auto simp: start_def small_defs drain_emitted drain_decoder_starts drain_ready
           split: if_splits sum.splits list.splits)

lemma ready_inv_drain: "ready_inv s \<Longrightarrow> ready_inv (drain s)"
  by (simp add: ready_inv_def drain_settled drain_emitted drain_decoder_starts drain_ready
        can_resolve_def split: list.splits)

lemma ready_inv_step:
  assumes "ready_inv s" and "step e s = Some s'"
  shows "ready_inv s'"
proof (cases e)
  case (CallStart opts flt)
  with assms have "s' = drain (start_executors opts flt s)"
    by (simp add: start_def split: if_splits)
  moreover have "ready_inv (start_executors opts flt s)"
    using assms(1) by (simp add: ready_inv_def)
  ultimately show ?thesis by (simp add: ready_inv_drain)
next
  case (ChecksumSelectDone res)
  with assms have "s' = drain (checksum_select_done res s)"
    by (simp split: if_splits)
  moreover have "ready_inv (checksum_select_done res s)"
    using assms(1) by (simp add: ready_inv_def)
  ultimately show ?thesis by (simp add: ready_inv_drain)
next
  case (StreamQueryDone res)
  with assms have "s' = drain (checksum_stream_done res s)"
    by (simp split: if_splits)
  moreover have "ready_inv (checksum_stream_done res s)"
    using assms(1) by (simp add: ready_inv_def)
  ultimately show ?thesis by (simp add: ready_inv_drain)
next
  case (BinlogEndDone res)
  with assms have "s' = drain (findBinlogEnd_callback res s)"
    by (simp split: if_splits)
  moreover have "ready_inv (findBinlogEnd_callback res s)"
    using assms(1) by (simp add: ready_inv_def)
  ultimately show ?thesis by (simp add: ready_inv_drain)
qed (use assms in \<open>auto simp: ready_inv_def small_defs split: if_splits sum.splits\<close>)

section \<open>The session: what holds in every state of a run\<close>

text \<open>Every task keeps \<open>settle_inv\<close>, \<open>stage_inv\<close> and \<open>tail_inv\<close>.\<close>

lemma settle_inv_drain: "settle_inv (drain s)"
  by (simp add: settle_inv_def drain_settled)

lemma settle_inv_step:
  assumes "settle_inv s" and "step e s = Some s'"
  shows "settle_inv s'"
proof (cases e)
  case (CallStart opts flt)
  with assms show ?thesis
    by (auto simp: start_def settle_inv_drain split: if_splits)
next
  case (ChecksumSelectDone res)
  with assms show ?thesis
    by (auto simp: settle_inv_drain split: if_splits)
next
  case (StreamQueryDone res)
  with assms show ?thesis
    by (auto simp: settle_inv_drain split: if_splits)
next
  case (BinlogEndDone res)
  with assms show ?thesis
    by (auto simp: settle_inv_drain split: if_splits)
qed (use assms in \<open>auto simp: settle_inv_def split: if_splits\<close>)

lemma stage_inv_drain [simp]: "stage_inv (drain s) = stage_inv s"
  by (simp add: stage_inv_def cong: checksum_stage.case_cong)

lemma stage_inv_binlogEnd [simp]: "stage_inv (findBinlogEnd_callback res s) = stage_inv s"
  by (simp add: stage_inv_def cong: checksum_stage.case_cong)

lemma stage_inv_start:
  "stage_inv s \<Longrightarrow> \<not> started s \<Longrightarrow> stage_inv (start_executors opts flt s)"
  by (simp add: stage_inv_def start_executors_def isChecksumEnabled_def query_def effect_def
        Let_def split: checksum_stage.splits)

lemma stage_inv_select_done:
  "stage_inv s \<Longrightarrow> checksum_stage s = SelectInFlight \<Longrightarrow>
   stage_inv (checksum_select_done res s)"
  by (simp add: stage_inv_def checksum_defs split: sum.splits list.splits)

lemma stage_inv_stream_done:
  "stage_inv s \<Longrightarrow>
   checksum_stage s = StreamInFlightThen \<or> checksum_stage s = StreamInFlightCatch \<Longrightarrow>
   stage_inv (checksum_stream_done res s)"
  by (auto simp add: stage_inv_def checksum_defs split: sum.splits)

lemma stage_inv_step:
  assumes "stage_inv s" and "step e s = Some s'"
  shows "stage_inv s'"
proof (cases e)
  case (CallStart opts flt)
  with assms show ?thesis
    by (auto simp: start_def stage_inv_start split: if_splits)
next
  case (ChecksumSelectDone res)
  with assms show ?thesis
    by (auto simp: stage_inv_select_done split: if_splits)
next
  case (StreamQueryDone res)
  with assms show ?thesis
    by (auto simp: stage_inv_stream_done split: if_splits)
next
  case (BinlogEndDone res)
  with assms show ?thesis
    by (auto split: if_splits)
qed (use assms in \<open>auto simp: stage_inv_def split: if_splits cong: checksum_stage.case_cong\<close>)

lemma testChecksum_select_done_stable:
  "testChecksum s \<noteq> Pending \<Longrightarrow> testChecksum (checksum_select_done res s) = testChecksum s"
  by (simp add: checksum_defs split: sum.splits list.splits)

lemma testChecksum_stream_done_stable:
  "testChecksum s \<noteq> Pending \<Longrightarrow> testChecksum (checksum_stream_done res s) = testChecksum s"
  by (simp add: checksum_defs split: sum.splits list.splits)

lemma tail_inv_drain: "tail_inv s \<Longrightarrow> started s \<Longrightarrow> tail_inv (drain s)"
  by (simp add: tail_inv_def drain_decoder_starts can_resolve_def split: if_splits)

lemma tail_inv_start:
  "tail_inv s \<Longrightarrow> \<not> started s \<Longrightarrow> tail_inv (start_executors opts flt s)"
  by (simp add: tail_inv_def start_executors_def isChecksumEnabled_def query_def effect_def
        Let_def)

lemma tail_inv_select_done: "tail_inv s \<Longrightarrow> tail_inv (checksum_select_done res s)"
  using testChecksum_select_done_stable [of s res]
  by (auto simp: tail_inv_def start_promises_def split: if_splits)

lemma tail_inv_stream_done: "tail_inv s \<Longrightarrow> tail_inv (checksum_stream_done res s)"
  using testChecksum_stream_done_stable [of s res]
  by (auto simp: tail_inv_def start_promises_def split: if_splits)

lemma findBinlogEnd_callback_settles:
  "findBinlogEnd s = Some Pending \<Longrightarrow>
   findBinlogEnd (findBinlogEnd_callback res s) =
     Some (case res of Inl err \<Rightarrow> Rejected err | Inr rows \<Rightarrow> Resolved)"
  by (simp add: findBinlogEnd_callback_def settle_with_def Let_def split: sum.splits option.splits)

lemma tail_inv_binlogEnd:
  "tail_inv s \<Longrightarrow> findBinlogEnd s = Some Pending \<Longrightarrow> tail_inv (findBinlogEnd_callback res s)"
  by (auto simp: tail_inv_def start_promises_def findBinlogEnd_callback_settles
           split: if_splits sum.splits)

lemma stage_started:
  "stage_inv s \<Longrightarrow> checksum_stage s \<noteq> Idle \<Longrightarrow> started s"
  by (auto simp: stage_inv_def split: checksum_stage.splits)

lemma tail_started: "tail_inv s \<Longrightarrow> findBinlogEnd s = Some Pending \<Longrightarrow> started s"
  by (auto simp: tail_inv_def split: if_splits)

lemma tail_inv_step:
  assumes "tail_inv s" and "stage_inv s" and "step e s = Some s'"
  shows "tail_inv s'"
proof (cases e)
  case (CallStart opts flt)
  with assms show ?thesis
    by (auto simp: start_def tail_inv_start tail_inv_drain split: if_splits)
next
  case (ChecksumSelectDone res)
  with assms stage_started [of s] show ?thesis
    by (auto simp: tail_inv_select_done tail_inv_drain split: if_splits)
next
  case (StreamQueryDone res)
  with assms stage_started [of s] show ?thesis
    by (auto simp: tail_inv_stream_done tail_inv_drain split: if_splits)
next
  case (BinlogEndDone res)
  with assms tail_started [of s] show ?thesis
    by (auto simp: tail_inv_binlogEnd tail_inv_drain split: if_splits)
qed (use assms in \<open>auto simp: tail_inv_def split: if_splits\<close>)

text \<open>So every state of a run from a new session satisfies all of them.\<close>

lemma session_inv_new: "session_inv (new_ZongJi tid)"
  by (simp add: session_inv_def kill_inv_def ready_inv_def settle_inv_def stage_inv_def
        tail_inv_def new_ZongJi_def start_promises_def)

lemma session_inv_step: "session_inv s \<Longrightarrow> step e s = Some s' \<Longrightarrow> session_inv s'"
  unfolding session_inv_def
  using kill_inv_step ready_inv_step settle_inv_step stage_inv_step tail_inv_step by blast

lemma session_inv_run: "run evs (new_ZongJi tid) = Some s \<Longrightarrow> session_inv s"
  by (rule run_invariant [where P = session_inv]) (auto intro: session_inv_new session_inv_step)

text \<open>\<open>stopped\<close> is set by \<open>stop\<close> and by nothing else, and is never cleared.\<close>

lemma step_stopped: "step e s = Some s' \<Longrightarrow> stopped s' = (stopped s \<or> e = CallStop)"
  by (cases e) (auto simp: start_def stop_def query_def effect_def split: if_splits)

lemma run_stopped: "run evs s = Some s' \<Longrightarrow> stopped s' = (stopped s \<or> CallStop \<in> set evs)"
proof (induction evs arbitrary: s)
  case Nil
  then show ?case by simp
next
  case (Cons e evs)
  then show ?case by (auto split: option.splits dest: step_stopped)
qed

lemma step_KillDone: "step (KillDone err) s = Some s' \<Longrightarrow> \<not> kill_pending s'"
  by (auto simp: kill_callback_def emit_def effect_def split: if_splits)

lemma run_after_stop:
  assumes "run evs s = Some s'" and "stopped s"
  shows "stopped s' \<and> ready s' = ready s
       \<and> count_list (emitted s') ReadyN = count_list (emitted s) ReadyN
       \<and> decoder_starts s' = decoder_starts s
       \<and> (list_ex is_KillDone evs \<longrightarrow> \<not> kill_pending s')"
  using assms
proof (induction evs arbitrary: s)
  case Nil
  then show ?case by simp
next
  case (Cons e evs)
  from Cons.prems obtain t where t: "step e s = Some t" "run evs t = Some s'"
    by (auto split: option.splits)
  from stopped_step [OF Cons.prems(2) t(1)]
  have st: "stopped t" "ready t = ready s"
    "count_list (emitted t) ReadyN = count_list (emitted s) ReadyN"
    "decoder_starts t = decoder_starts s" by simp_all
  from Cons.IH [OF t(2) st(1)]
  have ih: "stopped s'" "ready s' = ready t"
    "count_list (emitted s') ReadyN = count_list (emitted t) ReadyN"
    "decoder_starts s' = decoder_starts t"
    "list_ex is_KillDone evs \<longrightarrow> \<not> kill_pending s'" by simp_all
  have "\<not> kill_pending s'" if k: "is_KillDone e" and n: "\<not> list_ex is_KillDone evs"
  proof -
    from k obtain err where "e = KillDone err" by (cases e) simp_all
    with t(1) have "\<not> kill_pending t" using step_KillDone by blast
    moreover have "kill_pending u \<longrightarrow> kill_pending t" if "run evs t = Some u" for u
      using that st(1)
    proof (induction evs arbitrary: t)
      case Nil
      then show ?case by simp
    next
      case (Cons a evs)
      from Cons.prems obtain v where v: "step a t = Some v" "run evs v = Some u"
        by (auto split: option.splits)
      from stopped_step [OF Cons.prems(2) v(1)]
      have "stopped v" "kill_pending v \<longrightarrow> kill_pending t" by (simp_all split: if_splits)
      with Cons.IH [OF v(2)] show ?case by blast
    qed
    ultimately show ?thesis using t(2) by blast
  qed
  with ih st show ?case by auto
qed

text \<open>A task in which nothing failed rejects no promise, so no \<open>error\<close> is emitted.\<close>

lemma rejection_select_ok:
  "rejection (testChecksum (checksum_select_done (Inr (r # rs)) s)) = rejection (testChecksum s)"
  by (cases "testChecksum s") (simp_all add: checksum_defs)

lemma rejection_stream_ok:
  "rejection (testChecksum (checksum_stream_done (Inr u) s)) = rejection (testChecksum s)"
  by (cases "testChecksum s") (simp_all add: checksum_defs)

lemma rejection_binlogEnd_ok:
  "map_option rejection (findBinlogEnd (findBinlogEnd_callback (Inr rows) s)) =
   map_option rejection (findBinlogEnd s)"
  by (cases "findBinlogEnd s"; cases "binlogEnd_result rows")
     (auto simp: findBinlogEnd_callback_def settle_with_def)

lemma rejections_eq:
  "List.map_filter rejection (start_promises s) =
     (case rejection (testChecksum s) of None \<Rightarrow> [] | Some e \<Rightarrow> [e]) @
     (case findBinlogEnd s of None \<Rightarrow> []
      | Some p \<Rightarrow> (case rejection p of None \<Rightarrow> [] | Some e \<Rightarrow> [e]))"
  by (simp add: start_promises_def split: option.splits)

lemma drain_errors:
  "settled s \<or> List.map_filter rejection (start_promises s) = [] \<Longrightarrow>
   filter is_error (emitted (drain s)) = filter is_error (emitted s)"
  by (auto simp: drain_emitted)

lemma start_executors_rejections:
  "List.map_filter rejection (start_promises (start_executors opts flt s)) = []"
  by (simp add: rejections_eq start_executors_def isChecksumEnabled_def query_def effect_def
        Let_def)

lemma errors_step:
  assumes "answered_ok e" and "settle_inv s" and "step e s = Some s'"
  shows "filter is_error (emitted s') = filter is_error (emitted s)"
proof (cases e)
  case (CallStart opts flt)
  with assms(3) show ?thesis
    by (auto simp: start_def drain_errors start_executors_rejections split: if_splits)
next
  case CallStop
  with assms(3) show ?thesis by (auto simp: small_defs split: if_splits)
next
  case (ChecksumSelectDone res)
  with assms(1) obtain r rs where res: "res = Inr (r # rs)"
    by (auto split: sum.splits list.splits)
  have "settled s \<or> List.map_filter rejection (start_promises (checksum_select_done res s)) = []"
    using assms(2) unfolding res rejections_eq rejection_select_ok
    by (auto simp: settle_inv_def rejections_eq split: if_splits)
  with assms(3) ChecksumSelectDone show ?thesis
    by (auto simp: drain_errors split: if_splits)
next
  case (StreamQueryDone res)
  with assms(1) obtain u where res: "res = Inr u"
    by (auto split: sum.splits)
  have "settled s \<or> List.map_filter rejection (start_promises (checksum_stream_done res s)) = []"
    using assms(2) unfolding res rejections_eq rejection_stream_ok
    by (auto simp: settle_inv_def rejections_eq split: if_splits)
  with assms(3) StreamQueryDone show ?thesis
    by (auto simp: drain_errors split: if_splits)
next
  case (BinlogEndDone res)
  with assms(1) obtain rows where res: "res = Inr rows"
    by (auto split: sum.splits)
  have "settled s \<or> List.map_filter rejection (start_promises (findBinlogEnd_callback res s)) = []"
    using assms(2) rejection_binlogEnd_ok [of rows s] unfolding res rejections_eq
    by (auto simp: settle_inv_def rejections_eq split: if_splits option.splits)
  with assms(3) BinlogEndDone show ?thesis
    by (auto simp: drain_errors split: if_splits)
next
  case (KillDone err)
  with assms(3) show ?thesis by (auto simp: small_defs split: if_splits)
next
  case (ConnectionError err)
  with assms(1) show ?thesis by simp
next
  case (CallFetchTableInfo ev)
  with assms(3) show ?thesis by auto
next
  case (TableInfoDone ev res)
  with assms(1) obtain r rs where res: "res = Inr (r # rs)"
    by (auto split: sum.splits list.splits)
  with assms(3) TableInfoDone show ?thesis by (auto simp: small_defs split: if_splits)
qed

lemma run_errors:
  assumes "run evs s = Some s'" and "settle_inv s" and "list_all answered_ok evs"
  shows "filter is_error (emitted s') = filter is_error (emitted s)"
  using assms
proof (induction evs arbitrary: s)
  case Nil
  then show ?case by simp
next
  case (Cons e evs)
  from Cons.prems obtain t where t: "step e s = Some t" "run evs t = Some s'"
    by (auto split: option.splits)
  from Cons.prems have "answered_ok e" "list_all answered_ok evs" by simp_all
  with Cons.IH [OF t(2) settle_inv_step [OF Cons.prems(2) t(1)]]
    errors_step [OF _ Cons.prems(2) t(1)]
  show ?case by simp
qed

text \<open>For evaluating a run on concrete events.\<close>

lemmas run_defs =
  start_def start_executors_def drain_def start_then_def start_promises_def can_resolve_def
  checksum_defs findBinlogEnd_callback_def binlogEnd_result_def small_defs new_ZongJi_def
  no_filters_def

lemma run_single: "run [e] s = step e s"
  by (simp split: option.splits)

lemma run_snoc_eq: "run evs s0 = Some s \<Longrightarrow> run (evs @ [e]) s0 = step e s"
  by (simp add: run_append split: option.splits)

lemma run_snoc: "run evs s0 = Some s \<Longrightarrow> step e s = Some s' \<Longrightarrow> run (evs @ [e]) s0 = Some s'"
  by (simp add: run_append)

text \<open>Once neither operation of \<open>start\<close> is in flight, \<open>Promise.all\<close> has settled.\<close>

lemma settled_when_done:
  assumes "settle_inv s" and "stage_inv s" and "started s"
    and "checksum_stage s = Idle \<or> checksum_stage s = Finished"
    and "findBinlogEnd s \<noteq> Some Pending"
  shows "settled s"
proof (rule ccontr)
  assume ns: "\<not> settled s"
  with assms(1) have rej: "List.map_filter rejection (start_promises s) = []"
    and nall: "\<not> list_all (\<lambda>p. p = Resolved) (start_promises s)"
    by (simp_all add: settle_inv_def)
  from assms(2-4) have "testChecksum s \<noteq> Pending"
    by (auto simp: stage_inv_def)
  with rej have "testChecksum s = Resolved"
    by (cases "testChecksum s") (simp_all add: rejections_eq)
  moreover from rej assms(5) have "findBinlogEnd s = None \<or> findBinlogEnd s = Some Resolved"
    by (cases "findBinlogEnd s"; cases "the (findBinlogEnd s)") (simp_all add: rejections_eq)
  ultimately show False using nall by (auto simp: start_promises_def)
qed

section \<open>Table metadata: results\<close>

text \<open>
  C9 (as amended). The table-metadata lookup sends one query on the control connection.
  Its text is the fixed template with the schema name and the table name written into
  it, each between single quotes and as it is; no value is bound to a placeholder. The
  text names the two columns \<open>TABLE_SCHEMA\<close> and \<open>TABLE_NAME\<close> and ends with
  \<open>ORDER BY ORDINAL_POSITION\<close>.
\<close>

theorem fetchTableInfo_query_text:
  "effects (fetchTableInfo ev s) =
     effects s @
     [Query CtrlConnection
        (template_head @ schemaName ev @ template_middle @ tableName ev @ template_tail) []]"
  by (simp add: fetchTableInfo_def query_def effect_def fetchTableInfo_sql_def util_format_def
        TableInfoQueryTemplate_def template_head_def template_middle_def template_tail_def)

theorem fetchTableInfo_query_text_witness:
  "effects (fetchTableInfo example_event (new_ZongJi ''7'')) =
     [Query CtrlConnection
        (''SELECT \<newline>  COLUMN_NAME, COLLATION_NAME, CHARACTER_SET_NAME, \<newline>'' @
         ''  COLUMN_COMMENT, COLUMN_TYPE \<newline>'' @
         ''  FROM INFORMATION_SCHEMA.COLUMNS WHERE TABLE_SCHEMA='shop' AND TABLE_NAME='orders' \<newline>'' @
         ''  ORDER BY ORDINAL_POSITION'') []]"
  using fetchTableInfo_query_text [of example_event "new_ZongJi ''7''"]
  by (simp add: example_event_def new_ZongJi_def template_head_def template_middle_def
        template_tail_def)

text \<open>
  The claim as stated has the two names bound as parameters and kept out of the text.
  For a table whose name holds a quote the text that is sent reads
  \<open>TABLE_NAME='t' OR '1'='1'\<close>, and the list of bound values is empty.
\<close>

theorem fetchTableInfo_interpolates_counterexample:
  "effects (fetchTableInfo quoted_event (new_ZongJi ''7'')) =
     [Query CtrlConnection
        (''SELECT \<newline>  COLUMN_NAME, COLLATION_NAME, CHARACTER_SET_NAME, \<newline>'' @
         ''  COLUMN_COMMENT, COLUMN_TYPE \<newline>'' @
         ''  FROM INFORMATION_SCHEMA.COLUMNS WHERE TABLE_SCHEMA='db' AND TABLE_NAME='t' OR '1'='1' \<newline>'' @
         ''  ORDER BY ORDINAL_POSITION'') []]"
  by (simp add: fetchTableInfo_def query_def effect_def fetchTableInfo_sql_def util_format_def
        TableInfoQueryTemplate_def template_head_def template_middle_def template_tail_def
        quoted_event_def new_ZongJi_def)

text \<open>
  C5. The cache is last-write-wins: when the lookups of two table-map events with the
  same \<open>tableId\<close> have both succeeded (each with at least one row), the entry for that
  \<open>tableId\<close> is exactly the one built from the second event: its rows, its schema name
  and its table name.
\<close>

theorem tableMap_last_write_wins:
  assumes "tableId e1 = tableId e2" and "rows1 \<noteq> []" and "rows2 \<noteq> []"
  shows "tableMap (fetchTableInfo_callback e2 (Inr rows2)
                    (fetchTableInfo_callback e1 (Inr rows1) s)) (tableId e2) =
           Some \<lparr>columnSchemas = rows2, parentSchema = schemaName e2,
                 entry_tableName = tableName e2\<rparr>"
  using assms by (simp add: fetchTableInfo_callback_def effect_def)

theorem tableMap_last_write_wins_witness:
  "tableMap (fetchTableInfo_callback example_event' (Inr [example_column ''id'', example_column ''total''])
              (fetchTableInfo_callback example_event (Inr [example_column ''id''])
                 (new_ZongJi ''7''))) 42 =
     Some \<lparr>columnSchemas = [example_column ''id'', example_column ''total''],
           parentSchema = ''shop'', entry_tableName = ''orders_v2''\<rparr>"
  using tableMap_last_write_wins [of example_event example_event' "[example_column ''id'']"
          "[example_column ''id'', example_column ''total'']" "new_ZongJi ''7''"]
  by (simp add: example_event_def example_event'_def)

text \<open>
  C6. When the lookup succeeds with no row, the callback does one thing: it emits an
  \<open>error\<close> whose message speaks of insufficient permissions or a dropped table. The
  \<open>stopped\<close> flag, the \<open>ready\<close> flag and the cache are as before, nothing is torn
  down, and \<open>next\<close> is not called.
\<close>

theorem metadata_no_rows_is_not_fatal:
  assumes "step (TableInfoDone ev (Inr [])) s = Some s'"
  shows "effects s' = effects s @
           [Emit (ErrorN (JsError ''Error''
              (''Insufficient permissions to access ['' @ schemaName ev @ ''.'' @ tableName ev @
               ''], or the table has been dropped.'')))]
       \<and> stopped s' = stopped s \<and> ready s' = ready s \<and> tableMap s' = tableMap s"
  using assms
  by (auto simp: fetchTableInfo_callback_def missing_table_error_def emit_def effect_def
        split: if_splits)

theorem metadata_no_rows_is_not_fatal_witness:
  "ready example_streaming \<and> \<not> stopped example_streaming \<and>
   map_option (\<lambda>s. (ready s, stopped s, emitted s))
     (step (TableInfoDone example_event (Inr [])) example_streaming) =
   Some (True, False,
     [ReadyN,
      ErrorN (JsError ''Error''
        ''Insufficient permissions to access [shop.orders], or the table has been dropped.'')])"
proof -
  define s' where "s' = the (step (TableInfoDone example_event (Inr [])) example_streaming)"
  have ex: "step (TableInfoDone example_event (Inr [])) example_streaming = Some s'"
    unfolding s'_def by (simp add: example_streaming_def run_defs example_event_def)
  have st: "ready example_streaming" "\<not> stopped example_streaming"
    "emitted example_streaming = [ReadyN]"
    by (simp_all add: example_streaming_def run_defs example_event_def)
  from metadata_no_rows_is_not_fatal [OF ex] st
  have "ready s'" "\<not> stopped s'"
    "emitted s' = [ReadyN, ErrorN (JsError ''Error''
        ''Insufficient permissions to access [shop.orders], or the table has been dropped.'')]"
    by (simp_all add: example_event_def)
  with st show ?thesis unfolding ex by simp
qed

section \<open>Start and stop: results\<close>

text \<open>
  C10. When the first checksum query fails with an error whose text does not contain
  \<open>ER_UNKNOWN_SYSTEM_VARIABLE\<close>, the callback given to \<open>_isChecksumEnabled\<close> is called
  twice: with the error, which rejects the promise so that \<open>start\<close> fails with an
  \<open>error\<close> notification (unless it has failed already), and then with success and
  \<open>checksumEnabled = true\<close>, which sets \<open>useChecksum\<close> to true.
\<close>

theorem checksum_failure_calls_next_twice:
  assumes "run evs (new_ZongJi tid) = Some s"
    and "step (ChecksumSelectDone (Inl err)) s = Some s'"
    and "\<not> matches_literal ''ER_UNKNOWN_SYSTEM_VARIABLE'' (err_toString err)"
  shows "effects s' =
           effects s @ [Next (Some err) None, Next None (Some True)] @
           (if settled s then [] else [Emit (ErrorN err)])
       \<and> testChecksum s' = Rejected err \<and> useChecksum s' = True \<and> settled s'
       \<and> ready s' = ready s"
proof -
  from assms(2) have stage: "checksum_stage s = SelectInFlight"
    and s': "s' = drain (checksum_select_done (Inl err) s)"
    by (simp_all split: if_splits)
  from session_inv_run [OF assms(1)] have "stage_inv s"
    by (simp add: session_inv_def)
  with stage have pend: "testChecksum s = Pending" and en: "checksumEnabled s"
    by (simp_all add: stage_inv_def)
  define t where "t = checksum_select_done (Inl err) s"
  have t: "effects t = effects s @ [Next (Some err) None, Next None (Some True)]"
    "testChecksum t = Rejected err" "useChecksum t = True" "settled t = settled s"
    "ready t = ready s" "stopped t = stopped s"
    using assms(3) pend en by (simp_all add: t_def checksum_defs)
  have rej: "List.map_filter rejection (start_promises t) \<noteq> []"
    "\<exists>es. List.map_filter rejection (start_promises t) = err # es"
    using t(2) by (simp_all add: start_promises_def)
  show ?thesis
    unfolding s' t_def [symmetric]
    using t rej by (auto simp: drain_def emit_def effect_def drain_settled drain_ready can_resolve_def
                      split: list.splits)
qed

theorem checksum_failure_calls_next_twice_witness:
  "map_option (\<lambda>s. (effects s, useChecksum s, testChecksum s))
     (run [CallStart plain_options no_filters, ChecksumSelectDone (Inl example_error)]
        (new_ZongJi ''7'')) =
   Some ([Query CtrlConnection SelectChecksumParamSql [],
          Next (Some example_error) None, Next None (Some True),
          Emit (ErrorN example_error)],
         True, Rejected example_error)"
proof -
  define s where "s = the (run [CallStart plain_options no_filters] (new_ZongJi ''7''))"
  define s' where "s' = the (step (ChecksumSelectDone (Inl example_error)) s)"
  have r: "run [CallStart plain_options no_filters] (new_ZongJi ''7'') = Some s"
    unfolding s_def by (simp add: run_defs plain_options_def)
  have st: "step (ChecksumSelectDone (Inl example_error)) s = Some s'"
    unfolding s'_def s_def by (simp add: run_defs plain_options_def)
  have nm: "\<not> matches_literal ''ER_UNKNOWN_SYSTEM_VARIABLE'' (err_toString example_error)"
    by (simp add: example_error_def err_toString_def)
  have s: "effects s = [Query CtrlConnection SelectChecksumParamSql []]" "\<not> settled s"
    unfolding s_def by (simp_all add: run_defs plain_options_def)
  from checksum_failure_calls_next_twice [OF r st nm] s
  have "effects s' = [Query CtrlConnection SelectChecksumParamSql [],
          Next (Some example_error) None, Next None (Some True), Emit (ErrorN example_error)]"
    "useChecksum s'" "testChecksum s' = Rejected example_error"
    by simp_all
  moreover from run_snoc [OF r st]
  have "run [CallStart plain_options no_filters, ChecksumSelectDone (Inl example_error)]
          (new_ZongJi ''7'') = Some s'"
    by (simp only: append_Cons append_Nil)
  ultimately show ?thesis by simp
qed

text \<open>
  C8. The log listing is asked for only when \<open>startAtEnd\<close> is true, and while it is in
  flight the options are those of the caller and the decoder has not been started. When
  the listing has rows, the result is the last row and the options become those of the
  caller with the name and the size of that row as \<open>filename\<close> and \<open>position\<close>; when it
  has none, the result is \<open>null\<close> and the options stay as they are. If the decoder is
  started at the end of this task, it is started with the options so set.
\<close>

theorem tail_position_resolution:
  assumes "run evs (new_ZongJi tid) = Some s"
    and "step (BinlogEndDone (Inr rows)) s = Some s'"
  shows "startAtEnd (start_options s) = Some True \<and> options s = start_options s
       \<and> decoder_starts s = []
       \<and> binlogEnd_result rows = (if rows = [] then None else Some (last rows))
       \<and> options s' =
           (if rows = [] then options s
            else (start_options s)\<lparr>filename := Some (Log_name (last rows)),
                                   position := Some (File_size (last rows))\<rparr>)
       \<and> set (decoder_starts s') \<subseteq> {options s'}"
proof -
  from assms(2) have pend: "findBinlogEnd s = Some Pending"
    and s': "s' = drain (findBinlogEnd_callback (Inr rows) s)"
    by (simp_all split: if_splits)
  from session_inv_run [OF assms(1)] have tail: "tail_inv s"
    by (simp add: session_inv_def)
  from tail pend have a: "startAtEnd (start_options s) = Some True" "options s = start_options s"
    "decoder_starts s = []"
    by (auto simp: tail_inv_def start_promises_def split: if_splits)
  have b: "binlogEnd_result rows = (if rows = [] then None else Some (last rows))"
    by (simp add: binlogEnd_result_def last_conv_nth)
  have c: "options (findBinlogEnd_callback (Inr rows) s) =
           (if rows = [] then options s
            else (start_options s)\<lparr>filename := Some (Log_name (last rows)),
                                   position := Some (File_size (last rows))\<rparr>)"
    by (simp add: findBinlogEnd_callback_def b)
  show ?thesis
    unfolding s' using a b c by (auto simp: drain_decoder_starts)
qed


theorem tail_position_resolution_witness:
  "map_option options
     (run [CallStart example_options no_filters, BinlogEndDone (Inr [last_log])]
        (new_ZongJi ''7'')) =
     Some \<lparr>serverId = Some 1, filename = Some ''log.000005'', position = Some 1540,
           startAtEnd = Some True\<rparr> \<and>
   map_option options
     (run [CallStart example_options no_filters, BinlogEndDone (Inr [])]
        (new_ZongJi ''7'')) = Some example_options"
proof -
  define s where "s = the (run [CallStart example_options no_filters] (new_ZongJi ''7''))"
  define s1 where "s1 = the (step (BinlogEndDone (Inr [last_log])) s)"
  define s2 where "s2 = the (step (BinlogEndDone (Inr [])) s)"
  have r: "run [CallStart example_options no_filters] (new_ZongJi ''7'') = Some s"
    unfolding s_def by (simp add: run_defs example_options_def)
  have st1: "step (BinlogEndDone (Inr [last_log])) s = Some s1"
    unfolding s1_def s_def by (simp add: run_defs example_options_def)
  have st2: "step (BinlogEndDone (Inr [])) s = Some s2"
    unfolding s2_def s_def by (simp add: run_defs example_options_def)
  have s: "start_options s = example_options"
    unfolding s_def by (simp add: run_defs example_options_def)
  from tail_position_resolution [OF r st1] s
  have "options s1 = \<lparr>serverId = Some 1, filename = Some ''log.000005'', position = Some 1540,
           startAtEnd = Some True\<rparr>"
    by (simp add: example_options_def last_log_def)
  moreover from tail_position_resolution [OF r st2] s
  have "options s2 = example_options" by simp
  moreover from run_snoc [OF r st1] run_snoc [OF r st2]
  have "run [CallStart example_options no_filters, BinlogEndDone (Inr [last_log])]
          (new_ZongJi ''7'') = Some s1"
    "run [CallStart example_options no_filters, BinlogEndDone (Inr [])]
          (new_ZongJi ''7'') = Some s2"
    by (simp_all only: append_Cons append_Nil)
  ultimately show ?thesis by simp
qed

text \<open>
  C7. In every state that a run reaches after a first \<open>stop\<close>, another \<open>stop\<close> changes
  nothing: no query, no teardown, no notification; it can be dropped from any run. One
  \<open>stopped\<close> notification is emitted in all: none while the \<open>KILL\<close> callback is
  pending, one from then on.
\<close>

theorem stop_is_idempotent:
  assumes "run evs (new_ZongJi tid) = Some s" and "CallStop \<in> set evs"
  shows "stopped s \<and> step CallStop s = Some s
       \<and> run (evs @ CallStop # evs') (new_ZongJi tid) = run (evs @ evs') (new_ZongJi tid)
       \<and> count_list (emitted s) StoppedN = (if kill_pending s then 0 else 1)"
proof -
  from run_stopped [OF assms(1)] assms(2) have st: "stopped s"
    by simp
  then have same: "step CallStop s = Some s"
    by (simp add: stop_def)
  from session_inv_run [OF assms(1)] have "kill_inv s"
    by (simp add: session_inv_def)
  with st have "count_list (emitted s) StoppedN = (if kill_pending s then 0 else 1)"
    by (simp add: kill_inv_def split: if_splits)
  moreover have "run (evs @ CallStop # evs') (new_ZongJi tid) = run (evs @ evs') (new_ZongJi tid)"
    using assms(1) same by (simp add: run_append del: step.simps)
  ultimately show ?thesis using st same by simp
qed

theorem stop_is_idempotent_witness:
  "map_option (\<lambda>s. (stopped s, emitted s))
     (run [CallStart plain_options no_filters, CallStop, CallStop, KillDone None, CallStop]
        (new_ZongJi ''7'')) = Some (True, [StoppedN])"
proof -
  define s where
    "s = the (run [CallStart plain_options no_filters, CallStop, CallStop, KillDone None,
                   CallStop] (new_ZongJi ''7''))"
  have r: "run [CallStart plain_options no_filters, CallStop, CallStop, KillDone None, CallStop]
             (new_ZongJi ''7'') = Some s"
    unfolding s_def by (simp add: run_defs plain_options_def)
  have e: "emitted s = replicate (count_list (emitted s) StoppedN) StoppedN" "\<not> kill_pending s"
    unfolding s_def by (simp_all add: run_defs plain_options_def)
  from stop_is_idempotent [OF r, of "[]"] e have "stopped s" "emitted s = [StoppedN]"
    by simp_all
  with r show ?thesis by (simp del: run.simps)
qed


text \<open>
  C1 (as amended). Let \<open>stop\<close> be called when the handlers of \<open>Promise.all\<close> have not
  run yet (before \<open>start\<close>, or while its queries are in flight). Then in every later
  state the session is stopped and not ready, no \<open>ready\<close> has been emitted and the
  decoder has not been started; \<open>stopped\<close> has been emitted once if the \<open>KILL\<close>
  callback has run and is emitted by it otherwise; as long as every task after the
  \<open>stop\<close> is a call or a query answered without error, no \<open>error\<close> is emitted after it;
  and \<open>start\<close> has settled once both of its operations have finished.
\<close>

theorem stop_during_negotiation:
  assumes "run evs1 (new_ZongJi tid) = Some s1" and "\<not> settled s1"
    and "run (CallStop # evs2) s1 = Some s2"
  shows "stopped s2 \<and> \<not> ready s2 \<and> count_list (emitted s2) ReadyN = 0 \<and> decoder_starts s2 = []
       \<and> count_list (emitted s2) StoppedN = (if kill_pending s2 then 0 else 1)
       \<and> (list_ex is_KillDone evs2 \<longrightarrow> count_list (emitted s2) StoppedN = 1)
       \<and> (kill_pending s2 \<longrightarrow>
            map_option (\<lambda>s. count_list (emitted s) StoppedN) (step (KillDone err) s2) = Some 1)
       \<and> (list_all answered_ok evs2 \<longrightarrow>
            filter is_error (emitted s2) = filter is_error (emitted s1))
       \<and> (started s2 \<and> (checksum_stage s2 = Idle \<or> checksum_stage s2 = Finished) \<and>
            findBinlogEnd s2 \<noteq> Some Pending \<longrightarrow> settled s2)"
proof -
  from assms(3) have r2: "run evs2 (stop s1) = Some s2"
    by simp
  have inv1: "session_inv s1"
    using assms(1) by (rule session_inv_run)
  with assms(2) have nr: "\<not> ready s1" "count_list (emitted s1) ReadyN = 0" "decoder_starts s1 = []"
    by (simp_all add: session_inv_def ready_inv_def)
  have stop1: "stopped (stop s1)" "ready (stop s1) = ready s1"
    "emitted (stop s1) = emitted s1" "decoder_starts (stop s1) = decoder_starts s1"
    by (simp_all add: stop_def query_def effect_def)
  from run_after_stop [OF r2 stop1(1)] stop1 nr
  have a: "stopped s2" "\<not> ready s2" "count_list (emitted s2) ReadyN = 0" "decoder_starts s2 = []"
    "list_ex is_KillDone evs2 \<longrightarrow> \<not> kill_pending s2"
    by simp_all
  have "run (evs1 @ CallStop # evs2) (new_ZongJi tid) = Some s2"
    using assms(1,3) by (simp add: run_append del: run.simps)
  then have inv2: "session_inv s2"
    by (rule session_inv_run)
  with a(1) have b: "count_list (emitted s2) StoppedN = (if kill_pending s2 then 0 else 1)"
    by (simp add: session_inv_def kill_inv_def split: if_splits)
  have c: "map_option (\<lambda>s. count_list (emitted s) StoppedN) (step (KillDone err) s2) = Some 1"
    if "kill_pending s2"
    using that b by (simp add: kill_callback_def emit_def effect_def)
  have "session_inv (stop s1)"
    using inv1 session_inv_step [of s1 CallStop "stop s1"] by simp
  then have "settle_inv (stop s1)"
    by (simp add: session_inv_def)
  from run_errors [OF r2 this] stop1(3)
  have d: "list_all answered_ok evs2 \<longrightarrow>
           filter is_error (emitted s2) = filter is_error (emitted s1)"
    by simp
  have e: "settled s2"
    if "started s2 \<and> (checksum_stage s2 = Idle \<or> checksum_stage s2 = Finished) \<and>
        findBinlogEnd s2 \<noteq> Some Pending"
    using that inv2 settled_when_done [of s2] by (simp add: session_inv_def)
  from a b c d e show ?thesis by simp
qed

theorem stop_during_negotiation_witness:
  "map_option (\<lambda>s. (ready s, settled s, emitted s))
     (run [CallStart example_options no_filters, CallStop,
           ChecksumSelectDone (Inr [\<lparr>checksum = ''CRC32''\<rparr>]),
           BinlogEndDone (Inr [last_log]), StreamQueryDone (Inr ()), KillDone None]
        (new_ZongJi ''7'')) = Some (False, True, [StoppedN]) \<and>
   map_option (\<lambda>s. (ready s, count_list (emitted s) StoppedN))
     (run [CallStart example_options no_filters, CallStop, KillDone None]
        (new_ZongJi ''7'')) = Some (False, 1)"
proof -
  define evs2 where
    "evs2 = [ChecksumSelectDone (Inr [\<lparr>checksum = ''CRC32''\<rparr>]),
             BinlogEndDone (Inr [last_log]), StreamQueryDone (Inr ()), KillDone None]"
  define s1 where "s1 = the (run [CallStart example_options no_filters] (new_ZongJi ''7''))"
  define s2 where "s2 = the (run (CallStop # evs2) s1)"
  define s3 where "s3 = the (run [CallStop] s1)"
  define s4 where "s4 = the (step (KillDone None) s3)"
  have r1: "run [CallStart example_options no_filters] (new_ZongJi ''7'') = Some s1"
    unfolding s1_def by (simp add: run_defs example_options_def)
  have ns: "\<not> settled s1" "emitted s1 = []"
    unfolding s1_def by (simp_all add: run_defs example_options_def)
  have r2: "run (CallStop # evs2) s1 = Some s2"
    unfolding s2_def s1_def evs2_def by (simp add: run_defs example_options_def last_log_def)
  have r3: "run [CallStop] s1 = Some s3"
    unfolding s3_def s1_def by (simp add: run_defs example_options_def)
  have ev: "list_ex is_KillDone evs2" "list_all answered_ok evs2"
    by (simp_all add: evs2_def)
  have s2: "started s2" "checksum_stage s2 = Finished" "findBinlogEnd s2 = Some Resolved"
    "length (emitted s2) = 1"
    unfolding s2_def s1_def evs2_def
    by (simp_all add: run_defs example_options_def last_log_def)
  have s3: "kill_pending s3" "\<not> ready s3"
    unfolding s3_def s1_def by (simp_all add: run_defs example_options_def)
  have r4: "step (KillDone None) s3 = Some s4"
    unfolding s4_def using s3(1) by simp
  have s4: "ready s4 = ready s3"
    using r4 s3(1) by auto
  from stop_during_negotiation [OF r1 ns(1) r2] ev ns(2) s2(1-3)
  have "\<not> ready s2" "count_list (emitted s2) StoppedN = 1" "settled s2"
    by simp_all
  moreover from this(2) s2(4) have "emitted s2 = [StoppedN]"
    by (cases "emitted s2") (auto split: if_splits)
  moreover have "run ([CallStart example_options no_filters] @ CallStop # evs2) (new_ZongJi ''7'') =
                 Some s2"
    by (simp only: run_append r1 option.case r2)
  ultimately have 1: "map_option (\<lambda>s. (ready s, settled s, emitted s))
     (run [CallStart example_options no_filters, CallStop,
           ChecksumSelectDone (Inr [\<lparr>checksum = ''CRC32''\<rparr>]),
           BinlogEndDone (Inr [last_log]), StreamQueryDone (Inr ()), KillDone None]
        (new_ZongJi ''7'')) = Some (False, True, [StoppedN])"
    by (simp add: evs2_def del: run.simps)
  from stop_during_negotiation [OF r1 ns(1) r3, of None] s3(1) r4
  have "count_list (emitted s4) StoppedN = 1"
    by (simp del: step.simps)
  moreover have "run ([CallStart example_options no_filters] @ [CallStop]) (new_ZongJi ''7'') =
                 Some s3"
    by (simp only: run_append r1 option.case r3)
  from run_snoc [OF this r4]
  have "run [CallStart example_options no_filters, CallStop, KillDone None] (new_ZongJi ''7'') =
        Some s4"
    by (simp only: append_Cons append_Nil)
  ultimately have 2: "map_option (\<lambda>s. (ready s, count_list (emitted s) StoppedN))
     (run [CallStart example_options no_filters, CallStop, KillDone None]
        (new_ZongJi ''7'')) = Some (False, 1)"
    using s4 s3(2) by (simp del: run.simps)
  from 1 2 show ?thesis by blast
qed

text \<open>
  The claim as stated has no \<open>error\<close> at all after such a \<open>stop\<close>. The handlers do not
  look at \<open>stopped\<close> when a query fails: here the checksum answer arrives after the
  \<open>stop\<close>, the next query goes to the stream connection that \<open>stop\<close> has destroyed,
  and its failure is emitted.
\<close>

theorem stop_during_negotiation_error_counterexample:
  "map_option emitted
     (run [CallStart plain_options no_filters, CallStop,
           ChecksumSelectDone (Inr [\<lparr>checksum = ''CRC32''\<rparr>]),
           StreamQueryDone (Inl closed_error), KillDone None]
        (new_ZongJi ''7'')) = Some [ErrorN closed_error, StoppedN]"
  by (simp add: run_defs plain_options_def closed_error_def err_toString_def)

text \<open>
  C2 (as amended). Each of the two operations checks \<open>stopped\<close> once, before it sends
  its query: on a session that is stopped when \<open>start\<close> is called, no query is sent,
  both promises resolve, \<open>useChecksum\<close> is untouched and the options are the caller's.
  Neither checks it when the answer arrives: on a stopped session the log listing still
  rewrites \<open>filename\<close> and \<open>position\<close>, and the checksum negotiation still sets
  \<open>useChecksum\<close>. The one check after the answers is that of the \<open>then\<close> handler of
  \<open>Promise.all\<close>: no task of a stopped session makes it ready or starts the decoder.
\<close>

theorem stopped_guard_is_checked_before_the_query:
  "(stopped s \<and> \<not> started s \<and> \<not> settled s \<longrightarrow>
      map_option (\<lambda>s'. (effects s', testChecksum s', findBinlogEnd s', useChecksum s',
                          options s', ready s'))
        (step (CallStart opts flt) s) =
      Some (effects s @ [InitBinlogClass], Resolved,
            if startAtEnd opts = Some True then Some Resolved else None,
            useChecksum s, opts, ready s))
   \<and> (stopped s \<and> findBinlogEnd s = Some Pending \<and> rows \<noteq> [] \<longrightarrow>
        map_option options (step (BinlogEndDone (Inr rows)) s) =
        Some ((start_options s)\<lparr>filename := Some (Log_name (last rows)),
                                 position := Some (File_size (last rows))\<rparr>))
   \<and> (stopped s \<and> checksum_stage s = StreamInFlightThen \<longrightarrow>
        map_option useChecksum (step (StreamQueryDone (Inr ())) s) = Some (checksumEnabled s))
   \<and> (stopped s \<and> step e s = Some s' \<longrightarrow>
        ready s' = ready s \<and> count_list (emitted s') ReadyN = count_list (emitted s) ReadyN \<and>
        decoder_starts s' = decoder_starts s)"
proof -
  have a: "map_option (\<lambda>s'. (effects s', testChecksum s', findBinlogEnd s', useChecksum s',
                          options s', ready s'))
        (step (CallStart opts flt) s) =
      Some (effects s @ [InitBinlogClass], Resolved,
            if startAtEnd opts = Some True then Some Resolved else None,
            useChecksum s, opts, ready s)"
    if "stopped s" "\<not> started s" "\<not> settled s"
    using that
    by (simp add: start_def start_executors_def drain_def start_then_def start_promises_def
          effect_def Let_def)
  have b: "map_option options (step (BinlogEndDone (Inr rows)) s) =
        Some ((start_options s)\<lparr>filename := Some (Log_name (last rows)),
                                 position := Some (File_size (last rows))\<rparr>)"
    if "findBinlogEnd s = Some Pending" "rows \<noteq> []"
    using that by (simp add: findBinlogEnd_callback_def binlogEnd_result_def last_conv_nth)
  have c: "map_option useChecksum (step (StreamQueryDone (Inr ())) s) = Some (checksumEnabled s)"
    if "checksum_stage s = StreamInFlightThen"
    using that by (simp add: checksum_defs)
  have d: "ready s' = ready s \<and> count_list (emitted s') ReadyN = count_list (emitted s) ReadyN \<and>
        decoder_starts s' = decoder_starts s"
    if "stopped s" "step e s = Some s'"
    using stopped_step [OF that] by simp
  from a b c d show ?thesis by blast
qed


theorem stopped_guard_is_checked_before_the_query_witness:
  "map_option (\<lambda>s. (effects s, ready s))
     (run [CallStop, CallStart example_options no_filters] (new_ZongJi ''7'')) =
     Some ([Destroy Connection, Query CtrlConnection ''KILL 7'' [], InitBinlogClass], False) \<and>
   map_option (\<lambda>s. (stopped s, filename (options s)))
     (run [CallStart example_options no_filters, CallStop, BinlogEndDone (Inr [last_log])]
        (new_ZongJi ''7'')) = Some (True, Some ''log.000005'') \<and>
   map_option (\<lambda>s. (stopped s, ready s, useChecksum s))
     (run [CallStart plain_options no_filters,
           ChecksumSelectDone (Inr [\<lparr>checksum = ''CRC32''\<rparr>]), CallStop,
           StreamQueryDone (Inr ())] (new_ZongJi ''7'')) = Some (True, False, True)"
proof -
  define a where "a = the (run [CallStop] (new_ZongJi ''7''))"
  define b where "b = the (run [CallStart example_options no_filters, CallStop] (new_ZongJi ''7''))"
  define c where
    "c = the (run [CallStart plain_options no_filters,
                   ChecksumSelectDone (Inr [\<lparr>checksum = ''CRC32''\<rparr>]), CallStop]
                (new_ZongJi ''7''))"
  define c' where "c' = the (step (StreamQueryDone (Inr ())) c)"
  have ra: "run [CallStop] (new_ZongJi ''7'') = Some a"
    unfolding a_def by (simp add: run_defs)
  have rb: "run [CallStart example_options no_filters, CallStop] (new_ZongJi ''7'') = Some b"
    unfolding b_def by (simp add: run_defs example_options_def)
  have rc: "run [CallStart plain_options no_filters,
                 ChecksumSelectDone (Inr [\<lparr>checksum = ''CRC32''\<rparr>]), CallStop]
              (new_ZongJi ''7'') = Some c"
    unfolding c_def by (simp add: run_defs plain_options_def)
  have sc: "step (StreamQueryDone (Inr ())) c = Some c'"
    unfolding c'_def c_def by (simp add: run_defs plain_options_def)
  have fa: "stopped a" "\<not> started a" "\<not> settled a" "\<not> ready a"
    "effects a = [Destroy Connection, Query CtrlConnection ''KILL 7'' []]"
    unfolding a_def by (simp_all add: run_defs)
  have fb: "stopped b" "findBinlogEnd b = Some Pending" "start_options b = example_options"
    unfolding b_def by (simp_all add: run_defs example_options_def)
  have fc: "stopped c" "checksum_stage c = StreamInFlightThen" "checksumEnabled c" "\<not> ready c"
    unfolding c_def by (simp_all add: run_defs plain_options_def)
  from stopped_guard_is_checked_before_the_query
         [where s = a and opts = example_options and flt = no_filters and rows = "[]"
            and e = CallStop and s' = a] fa
  have "map_option (\<lambda>s. (effects s, ready s)) (step (CallStart example_options no_filters) a) =
        Some ([Destroy Connection, Query CtrlConnection ''KILL 7'' [], InitBinlogClass], False)"
    by (auto simp del: step.simps)
  moreover from run_snoc_eq [OF ra, of "CallStart example_options no_filters"]
  have "run [CallStop, CallStart example_options no_filters] (new_ZongJi ''7'') =
        step (CallStart example_options no_filters) a"
    by (simp only: append_Cons append_Nil)
  ultimately have 1: "map_option (\<lambda>s. (effects s, ready s))
     (run [CallStop, CallStart example_options no_filters] (new_ZongJi ''7'')) =
     Some ([Destroy Connection, Query CtrlConnection ''KILL 7'' [], InitBinlogClass], False)"
    by (simp only:)
  from stopped_guard_is_checked_before_the_query
         [where s = b and opts = example_options and flt = no_filters and rows = "[last_log]"
            and e = CallStop and s' = b] fb
  have "map_option (\<lambda>s. (stopped s, filename (options s))) (step (BinlogEndDone (Inr [last_log])) b) =
        Some (True, Some ''log.000005'')"
    by (auto simp: example_options_def last_log_def split: if_splits)
  moreover from run_snoc_eq [OF rb, of "BinlogEndDone (Inr [last_log])"]
  have "run [CallStart example_options no_filters, CallStop, BinlogEndDone (Inr [last_log])]
          (new_ZongJi ''7'') = step (BinlogEndDone (Inr [last_log])) b"
    by (simp only: append_Cons append_Nil)
  ultimately have 2: "map_option (\<lambda>s. (stopped s, filename (options s)))
     (run [CallStart example_options no_filters, CallStop, BinlogEndDone (Inr [last_log])]
        (new_ZongJi ''7'')) = Some (True, Some ''log.000005'')"
    by (simp only:)
  from stopped_guard_is_checked_before_the_query
         [where s = c and opts = example_options and flt = no_filters and rows = "[]"
            and e = "StreamQueryDone (Inr ())" and s' = c'] fc sc step_stopped [OF sc]
  have "stopped c'" "ready c' = False" "useChecksum c'"
    by (auto simp del: step.simps)
  with run_snoc [OF rc sc]
  have 3: "map_option (\<lambda>s. (stopped s, ready s, useChecksum s))
     (run [CallStart plain_options no_filters,
           ChecksumSelectDone (Inr [\<lparr>checksum = ''CRC32''\<rparr>]), CallStop,
           StreamQueryDone (Inr ())] (new_ZongJi ''7'')) = Some (True, False, True)"
    by (simp del: run.simps)
  from 1 2 3 show ?thesis by blast
qed

text \<open>
  The claim as stated has the tail position left alone once the session is stopped. Here
  the session is stopped while the log listing is in flight, and the answer replaces the
  caller's \<open>log.000001\<close> and \<open>4\<close>.
\<close>

theorem tail_rewrite_after_stop_counterexample:
  "map_option (\<lambda>s. (stopped s, options s))
     (run [CallStart example_options no_filters, CallStop, BinlogEndDone (Inr [last_log])]
        (new_ZongJi ''7'')) =
   Some (True, \<lparr>serverId = Some 1, filename = Some ''log.000005'', position = Some 1540,
                startAtEnd = Some True\<rparr>)"
  by (simp add: run_defs example_options_def last_log_def)

end
